theory Spec2Isabelle
  imports Main "HOL-Library.AList"
begin

section \<open>Values exchanged with the backend\<close>

text \<open>
  The extractor of \<^verbatim>\<open>yt_dlp/extractor/francetv.py\<close> works on decoded JSON: the
  payload of a device profile, a stream descriptor, a format entry are all Python
  dictionaries. A dictionary is an association list (keys distinct, as a decoded JSON
  object has them; insertion order kept, as Python keeps it), Python's \<^verbatim>\<open>None\<close> is
  \<open>JNull\<close>. A string is kept as the bytes of its UTF-8 encoding; what the source
  does to a string by looking for ASCII characters is the same on these bytes as on the
  characters. Numbers are integers.
\<close>

datatype json =
    JNull
  | JBool bool
  | JInt int
  | JStr string
  | JList "json list"
  | JDict "(string \<times> json) list"

type_synonym pydict = "(string \<times> json) list"

text \<open>\<^verbatim>\<open>d.get(k)\<close>: the value stored under \<open>k\<close>, \<^verbatim>\<open>None\<close> when the key is missing.\<close>

definition dict_get :: "pydict \<Rightarrow> string \<Rightarrow> json" where
  "dict_get d k = (case map_of d k of None \<Rightarrow> JNull | Some v \<Rightarrow> v)"

text \<open>Python's truth value of an object, as \<^verbatim>\<open>if x:\<close> and \<^verbatim>\<open>not x\<close> read it.\<close>

fun truthy :: "json \<Rightarrow> bool" where
  "truthy JNull = False"
| "truthy (JBool b) = b"
| "truthy (JInt n) = (n \<noteq> 0)"
| "truthy (JStr s) = (s \<noteq> [])"
| "truthy (JList xs) = (xs \<noteq> [])"
| "truthy (JDict d) = (d \<noteq> [])"

text \<open>
  \<^verbatim>\<open>traverse_obj(obj, (key, {dict}))\<close>: the value under \<open>key\<close> when \<open>obj\<close> is a
  dictionary and that value is itself a dictionary, \<^verbatim>\<open>None\<close> in every other case.
\<close>

definition traverse_dict :: "json \<Rightarrow> string \<Rightarrow> pydict option" where
  "traverse_dict obj key =
     (case obj of
        JDict d \<Rightarrow> (case map_of d key of Some (JDict v) \<Rightarrow> Some v | _ \<Rightarrow> None)
      | _ \<Rightarrow> None)"

text \<open>The exceptions that leave the extractor.\<close>

datatype error =
    GeoRestricted
  | InvalidURL
  | TypeError
  | AttributeError

section \<open>Collaborators\<close>

text \<open>
  The functions of \<^verbatim>\<open>yt_dlp.utils\<close> and of the \<^verbatim>\<open>InfoExtractor\<close> base class are
  not part of this module. The pure ones are the fields of \<open>helpers\<close>; those that reach
  the network are the fields of \<open>backend\<close>, one per kind of request, each a function
  of the arguments the request is made with. A failed download made with
  \<^verbatim>\<open>fatal=False\<close> answers \<^verbatim>\<open>False\<close>, that is \<open>JBool False\<close>.
  \<open>str_strip\<close> is Python's \<^verbatim>\<open>str.strip()\<close>. \<open>unicode_decimal\<close> is the table of
  the interpreter's Unicode database that gives a code point above 127 its value as a
  decimal digit, if it is one (the characters that \<^verbatim>\<open>\d\<close> matches and that
  \<^verbatim>\<open>int()\<close> reads, beside \<^verbatim>\<open>0\<close> to \<^verbatim>\<open>9\<close>).
\<close>

record helpers =
  url_or_none_str :: "string \<Rightarrow> string option"
  determine_ext :: "string \<Rightarrow> string"
  parse_iso8601 :: "json \<Rightarrow> int option"
  py_str :: "json \<Rightarrow> string"
  format_field :: "pydict \<Rightarrow> string \<Rightarrow> string \<Rightarrow> string"
  join_nonempty :: "json \<Rightarrow> json \<Rightarrow> string \<Rightarrow> string"
  merge_subtitles :: "pydict \<Rightarrow> pydict \<Rightarrow> pydict"
  parse_qs :: "string \<Rightarrow> string \<Rightarrow> string list"
  unsmuggle_url :: "string \<Rightarrow> string \<times> pydict"
  smuggle_url :: "string \<Rightarrow> pydict \<Rightarrow> string"
  urlparse_hostname :: "string \<Rightarrow> json"
  str_strip :: "string \<Rightarrow> string"
  unicode_decimal :: "nat \<Rightarrow> nat option"

record backend =
  download_video_json :: "string \<Rightarrow> string \<Rightarrow> json \<Rightarrow> json"
  download_token_json :: "string \<Rightarrow> string \<Rightarrow> json"
  extract_f4m_formats :: "string \<Rightarrow> json \<Rightarrow> pydict list"
  extract_m3u8_formats_and_subtitles :: "string \<Rightarrow> json \<Rightarrow> pydict list \<times> pydict"
  extract_mpd_formats_and_subtitles :: "string \<Rightarrow> json \<Rightarrow> pydict list \<times> pydict"
  is_valid_url :: "string \<Rightarrow> json \<Rightarrow> bool"
  request_head :: "string \<Rightarrow> (string \<times> string) list option"

text \<open>The requests a resolution issues, in the order it issues them.\<close>

datatype request =
    ReqVideoJSON string string json
  | ReqTokenJSON string string
  | ReqF4M string json
  | ReqM3U8 string json
  | ReqMPD string json
  | ReqIsValid string json
  | ReqHead string

text \<open>
  \<^verbatim>\<open>url_or_none(v)\<close>: \<^verbatim>\<open>None\<close> unless \<open>v\<close> is a string; on a string the
  decision is the helper's.
\<close>

definition url_or_none :: "helpers \<Rightarrow> json \<Rightarrow> string option" where
  "url_or_none h v = (case v of JStr s \<Rightarrow> url_or_none_str h s | _ \<Rightarrow> None)"

section \<open>Season and episode numbers\<close>

text \<open>
  The pattern of line 132 has the classes \<^verbatim>\<open>\d\<close> and \<^verbatim>\<open>\s\<close>, which Python reads
  over all of Unicode, so the search runs on the characters of the text, each a code
  point. \<open>utf8_decode\<close> gives the code points of a string from its bytes. Decoded JSON
  is well-formed; a byte that cannot start a character, or a character cut short, gives
  U+FFFD here.
\<close>

fun utf8_decode :: "string \<Rightarrow> nat list" where
  "utf8_decode [] = []"
| "utf8_decode (b # bs) =
     (if (of_char b :: nat) < 128 then of_char b # utf8_decode bs
      else if 192 \<le> (of_char b :: nat) \<and> (of_char b :: nat) < 224 then
        (case bs of
           b1 # r \<Rightarrow>
             ((of_char b - 192) * 64 + (of_char b1 - 128)) # utf8_decode r
         | _ \<Rightarrow> [65533])
      else if 224 \<le> (of_char b :: nat) \<and> (of_char b :: nat) < 240 then
        (case bs of
           b1 # b2 # r \<Rightarrow>
             ((of_char b - 224) * 4096 + (of_char b1 - 128) * 64 + (of_char b2 - 128))
               # utf8_decode r
         | _ \<Rightarrow> [65533])
      else if 240 \<le> (of_char b :: nat) \<and> (of_char b :: nat) < 248 then
        (case bs of
           b1 # b2 # b3 # r \<Rightarrow>
             ((of_char b - 240) * 262144 + (of_char b1 - 128) * 4096
                + (of_char b2 - 128) * 64 + (of_char b3 - 128))
               # utf8_decode r
         | _ \<Rightarrow> [65533])
      else 65533 # utf8_decode bs)"

text \<open>
  \<^verbatim>\<open>\d\<close> on a code point: \<^verbatim>\<open>0\<close> to \<^verbatim>\<open>9\<close>, and above 127 the decimal digits
  of the Unicode database. \<open>digit_val\<close> is the value \<^verbatim>\<open>int()\<close> gives the digit.
\<close>

definition is_digit :: "helpers \<Rightarrow> nat \<Rightarrow> bool" where
  "is_digit h c =
     (if c < 128 then 48 \<le> c \<and> c \<le> 57 else unicode_decimal h c \<noteq> None)"

definition digit_val :: "helpers \<Rightarrow> nat \<Rightarrow> int" where
  "digit_val h c =
     (if c < 128 then int c - 48
      else (case unicode_decimal h c of None \<Rightarrow> 0 | Some d \<Rightarrow> int d))"

text \<open>
  \<^verbatim>\<open>\s\<close> on a code point, the whitespace of CPython
  (\<^verbatim>\<open>_PyUnicode_IsWhitespace\<close>): U+0009 to U+000D, U+001C to U+0020, U+0085,
  U+00A0, U+1680, U+2000 to U+200A, U+2028, U+2029, U+202F, U+205F, U+3000.
\<close>

definition is_space :: "nat \<Rightarrow> bool" where
  "is_space c =
     ((9 \<le> c \<and> c \<le> 13) \<or> (28 \<le> c \<and> c \<le> 32) \<or> c = 133 \<or> c = 160 \<or> c = 5760
      \<or> (8192 \<le> c \<and> c \<le> 8202) \<or> c = 8232 \<or> c = 8233 \<or> c = 8239 \<or> c = 8287
      \<or> c = 12288)"

text \<open>
  \<^verbatim>\<open>re.search(r'S(\d+)\s*E(\d+)', s)\<close>; 83 is \<^verbatim>\<open>S\<close> and 69 is \<^verbatim>\<open>E\<close>. From a
  start position the matcher takes the longest run of digits, then the longest run of
  whitespace, then needs \<^verbatim>\<open>E\<close> and takes the longest run of digits. Backtracking
  finds nothing else: \<^verbatim>\<open>E\<close> is neither digit nor whitespace, so in any match it is
  the first character after \<^verbatim>\<open>S\<close> that is neither, and what stands between is
  digits followed by whitespace only if what follows its longest run of digits is
  whitespace. The search takes the leftmost start position that matches.
\<close>

definition match_episode_at :: "helpers \<Rightarrow> nat list \<Rightarrow> (nat list \<times> nat list) option" where
  "match_episode_at h s =
     (case s of
        [] \<Rightarrow> None
      | c # r \<Rightarrow>
          if c = 83 \<and> takeWhile (is_digit h) r \<noteq> [] then
            (case dropWhile is_space (dropWhile (is_digit h) r) of
               [] \<Rightarrow> None
             | e # r2 \<Rightarrow>
                 if e = 69 \<and> takeWhile (is_digit h) r2 \<noteq> []
                 then Some (takeWhile (is_digit h) r, takeWhile (is_digit h) r2)
                 else None)
          else None)"

fun search_episode :: "helpers \<Rightarrow> nat list \<Rightarrow> (nat list \<times> nat list) option" where
  "search_episode h [] = match_episode_at h []"
| "search_episode h (c # cs) =
     (case match_episode_at h (c # cs) of
        Some m \<Rightarrow> Some m
      | None \<Rightarrow> search_episode h cs)"

text \<open>
  \<^verbatim>\<open>self._search_regex(r'S(\d+)\s*E(\d+)', pre_title, 'episode info', group=(1, 2),
  default=(None, None))\<close>: no search on \<^verbatim>\<open>None\<close>, the default when nothing matches,
  and \<^verbatim>\<open>re.search\<close> raises \<^verbatim>\<open>TypeError\<close> on a value that is not a string. The two
  groups are kept as the code points matched.
\<close>

definition search_episode_info ::
  "helpers \<Rightarrow> json \<Rightarrow> error + (nat list option \<times> nat list option)" where
  "search_episode_info h pre_title =
     (case pre_title of
        JNull \<Rightarrow> Inr (None, None)
      | JStr s \<Rightarrow> (case search_episode h (utf8_decode s) of
                    Some (sn, en) \<Rightarrow> Inr (Some sn, Some en)
                  | None \<Rightarrow> Inr (None, None))
      | _ \<Rightarrow> Inl TypeError)"

text \<open>
  Modelled from the spec: \<^verbatim>\<open>int_or_none\<close> is not in this module; the spec has the
  numeric fields "coerced to an integer if parseable, else absent". On the digit runs
  the pattern captures, the integer is their decimal value.
\<close>

definition int_or_none :: "helpers \<Rightarrow> nat list option \<Rightarrow> int option" where
  "int_or_none h v =
     (case v of
        None \<Rightarrow> None
      | Some s \<Rightarrow> if s \<noteq> [] \<and> list_all (is_digit h) s
                  then Some (foldl (\<lambda>acc c. 10 * acc + digit_val h c) 0 s)
                  else None)"

section \<open>Multi-source metadata fetching\<close>

text \<open>
  The local variables of \<^verbatim>\<open>_extract_video\<close> that the loop over the device profiles
  fills (lines 93 to 102 initialise them).
\<close>

record fetched =
  is_live :: json
  videos :: "pydict list"
  title :: json
  subtitle :: json
  episode_number :: "nat list option"
  season_number :: "nat list option"
  image_val :: json
  duration :: json
  timestamp :: "int option"
  spritesheets :: json

definition fetched_init :: fetched where
  "fetched_init =
     \<lparr> is_live = JNull, videos = [], title = JNull, subtitle = JNull,
       episode_number = None, season_number = None, image_val = JNull,
       duration = JNull, timestamp = None, spritesheets = JNull \<rparr>"

text \<open>Lines 116 to 124: the \<^verbatim>\<open>video\<close> object of one response.\<close>

definition merge_video :: "fetched \<Rightarrow> json \<Rightarrow> fetched" where
  "merge_video st dinfo =
     (case traverse_dict dinfo ''video'' of
        None \<Rightarrow> st
      | Some video \<Rightarrow>
          if video = [] then st
          else st\<lparr> videos := videos st @ [video],
                   duration := (if duration st = JNull then dict_get video ''duration''
                                else duration st),
                   is_live := (if is_live st = JNull then dict_get video ''is_live''
                               else is_live st),
                   spritesheets := (if spritesheets st = JNull
                                    then dict_get video ''spritesheets''
                                    else spritesheets st) \<rparr>)"

text \<open>Lines 126 to 138: the \<^verbatim>\<open>meta\<close> object of one response.\<close>

definition merge_meta :: "helpers \<Rightarrow> fetched \<Rightarrow> json \<Rightarrow> error + fetched" where
  "merge_meta h st dinfo =
     (case traverse_dict dinfo ''meta'' of
        None \<Rightarrow> Inr st
      | Some meta \<Rightarrow>
          if meta = [] then Inr st
          else (case search_episode_info h (dict_get meta ''pre_title'') of
                  Inl e \<Rightarrow> Inl e
                | Inr (sn, en) \<Rightarrow>
                    Inr (st\<lparr> title := (if title st = JNull then dict_get meta ''title''
                                         else title st),
                             season_number := sn,
                             episode_number := en,
                             subtitle := (if subtitle st = JNull
                                          then dict_get meta ''additional_title''
                                          else subtitle st),
                             image_val := (if image_val st = JNull
                                           then dict_get meta ''image_url''
                                           else image_val st),
                             timestamp := (if timestamp st = None
                                           then parse_iso8601 h (dict_get meta ''broadcasted_at'')
                                           else timestamp st) \<rparr>)))"

text \<open>One turn of the loop, after the download: lines 113 to 138.\<close>

definition merge_dinfo :: "helpers \<Rightarrow> fetched \<Rightarrow> json \<Rightarrow> error + fetched" where
  "merge_dinfo h st dinfo =
     (if \<not> truthy dinfo then Inr st else merge_meta h (merge_video st dinfo) dinfo)"

text \<open>
  Lines 104 to 138: the loop over the device profiles. The second component is the list
  of requests issued, also when the loop is left by an exception.
\<close>

fun fetch_loop ::
  "helpers \<Rightarrow> backend \<Rightarrow> string \<Rightarrow> json \<Rightarrow> string list \<Rightarrow> fetched
     \<Rightarrow> (error + fetched) \<times> request list" where
  "fetch_loop h b video_id hostname [] st = (Inr st, [])"
| "fetch_loop h b video_id hostname (device_type # rest) st =
     (case merge_dinfo h st (download_video_json b video_id device_type hostname) of
        Inl e \<Rightarrow> (Inl e, [ReqVideoJSON video_id device_type hostname])
      | Inr st' \<Rightarrow>
          (case fetch_loop h b video_id hostname rest st' of
             (r, reqs) \<Rightarrow> (r, ReqVideoJSON video_id device_type hostname # reqs)))"

definition device_types :: "string list" where
  "device_types = [''desktop'', ''mobile'']"

definition fetch_metadata ::
  "helpers \<Rightarrow> backend \<Rightarrow> string \<Rightarrow> json \<Rightarrow> (error + fetched) \<times> request list" where
  "fetch_metadata h b video_id hostname =
     fetch_loop h b video_id hostname device_types fetched_init"

section \<open>Format resolution\<close>

text \<open>
  The local variables of the loop over the descriptors (line 140): the formats and the
  subtitle tracks collected so far and the URL of the last descriptor processed.
\<close>

record resolved =
  formats :: "pydict list"
  subtitles :: pydict
  video_url :: "string option"

definition resolved_init :: resolved where
  "resolved_init = \<lparr> formats = [], subtitles = [], video_url = None \<rparr>"

text \<open>
  Line 141: the loop runs over the descriptors \<open>v\<close> with \<^verbatim>\<open>url_or_none(v['url'])\<close>
  true; a descriptor without the key is left out (the filter swallows the
  \<^verbatim>\<open>KeyError\<close>). The result is \<^verbatim>\<open>video['url']\<close> for a descriptor that is kept.
\<close>

definition candidate_url :: "helpers \<Rightarrow> pydict \<Rightarrow> string option" where
  "candidate_url h video =
     (case map_of video ''url'' of
        Some (JStr s) \<Rightarrow>
          (case url_or_none_str h s of
             Some u \<Rightarrow> if u \<noteq> [] then Some s else None
           | None \<Rightarrow> None)
      | _ \<Rightarrow> None)"

text \<open>
  \<^verbatim>\<open>traverse_obj(response, ('url', {url_or_none}))\<close> on the answer of the token
  endpoint.
\<close>

definition tokenized_url :: "helpers \<Rightarrow> json \<Rightarrow> string option" where
  "tokenized_url h response =
     (case response of
        JDict d \<Rightarrow> (case map_of d ''url'' of Some v \<Rightarrow> url_or_none h v | None \<Rightarrow> None)
      | _ \<Rightarrow> None)"

text \<open>
  Lines 145 to 154: the URL the descriptor is resolved with, and the token request if
  one was made.
\<close>

definition sign_url ::
  "helpers \<Rightarrow> backend \<Rightarrow> pydict \<Rightarrow> string \<Rightarrow> string \<times> request list" where
  "sign_url h b video url =
     (case url_or_none h (dict_get video ''token'') of
        None \<Rightarrow> (url, [])
      | Some token_url \<Rightarrow>
          if token_url \<noteq> [] \<and> dict_get video ''workflow'' = JStr ''token-akamai''
          then (case tokenized_url h (download_token_json b token_url url) of
                  None \<Rightarrow> (url, [ReqTokenJSON token_url url])
                | Some signed \<Rightarrow>
                    (if signed \<noteq> [] then signed else url, [ReqTokenJSON token_url url]))
          else (url, []))"

text \<open>Lines 156 to 183: the formats of one descriptor, by the kind of its URL.\<close>

definition add_formats ::
  "helpers \<Rightarrow> backend \<Rightarrow> resolved \<Rightarrow> json \<Rightarrow> string \<Rightarrow> resolved \<times> request list" where
  "add_formats h b st format_id url =
     (if determine_ext h url = ''f4m'' then
        (st\<lparr> formats := formats st @ extract_f4m_formats b url format_id \<rparr>,
         [ReqF4M url format_id])
      else if determine_ext h url = ''m3u8'' then
        (case extract_m3u8_formats_and_subtitles b url format_id of
           (fmts, subs) \<Rightarrow>
             (st\<lparr> formats := formats st @ fmts,
                  subtitles := merge_subtitles h subs (subtitles st) \<rparr>,
              [ReqM3U8 url format_id]))
      else if determine_ext h url = ''mpd'' then
        (case extract_mpd_formats_and_subtitles b url format_id of
           (fmts, subs) \<Rightarrow>
             (st\<lparr> formats := formats st @ fmts,
                  subtitles := merge_subtitles h subs (subtitles st) \<rparr>,
              [ReqMPD url format_id]))
      else if take 4 url = ''rtmp'' then
        (st\<lparr> formats := formats st @
               [[(''url'', JStr url),
                 (''format_id'', JStr (''rtmp-'' @ py_str h format_id)),
                 (''ext'', JStr ''flv'')]] \<rparr>,
         [])
      else if is_valid_url b url format_id then
        (st\<lparr> formats := formats st @ [[(''url'', JStr url), (''format_id'', format_id)]] \<rparr>,
         [ReqIsValid url format_id])
      else (st, [ReqIsValid url format_id]))"

text \<open>Lines 141 to 183: one turn of the loop.\<close>

definition process_video ::
  "helpers \<Rightarrow> backend \<Rightarrow> resolved \<Rightarrow> pydict \<Rightarrow> resolved \<times> request list" where
  "process_video h b st video =
     (case candidate_url h video of
        None \<Rightarrow> (st, [])
      | Some url \<Rightarrow>
          (case sign_url h b video url of
             (signed, reqs1) \<Rightarrow>
               (case add_formats h b (st\<lparr> video_url := Some signed \<rparr>)
                       (dict_get video ''format'') signed of
                  (st', reqs2) \<Rightarrow> (st', reqs1 @ reqs2))))"

fun resolve_loop ::
  "helpers \<Rightarrow> backend \<Rightarrow> resolved \<Rightarrow> pydict list \<Rightarrow> resolved \<times> request list" where
  "resolve_loop h b st [] = (st, [])"
| "resolve_loop h b st (video # rest) =
     (case process_video h b st video of
        (st', reqs1) \<Rightarrow>
          (case resolve_loop h b st' rest of
             (st'', reqs2) \<Rightarrow> (st'', reqs1 @ reqs2)))"

text \<open>
  \<^verbatim>\<open>urlh.headers.get(name)\<close>: the headers of a response are kept in the order
  received, and the value is that of the first header whose name is \<open>name\<close>, letter
  case aside.
\<close>

definition lower_ascii :: "char \<Rightarrow> char" where
  "lower_ascii c =
     (case map_of (zip ''ABCDEFGHIJKLMNOPQRSTUVWXYZ'' ''abcdefghijklmnopqrstuvwxyz'') c of
        None \<Rightarrow> c
      | Some l \<Rightarrow> l)"

definition headers_get :: "(string \<times> string) list \<Rightarrow> string \<Rightarrow> string option" where
  "headers_get headers name =
     map_of (map (\<lambda>kv. (map lower_ascii (fst kv), snd kv)) headers) (map lower_ascii name)"

text \<open>
  Line 191: the probe was answered (\<^verbatim>\<open>fatal=False\<close> gives \<^verbatim>\<open>False\<close> when it was
  not) and the answer has the header \<^verbatim>\<open>x-errortype\<close> with the value \<^verbatim>\<open>geo\<close>.
\<close>

definition geo_header :: "(string \<times> string) list option \<Rightarrow> bool" where
  "geo_header urlh =
     (case urlh of
        None \<Rightarrow> False
      | Some headers \<Rightarrow> headers_get headers ''x-errortype'' = Some ''geo'')"

text \<open>
  Modelled from the spec: \<^verbatim>\<open>raise_geo_restricted\<close> is a method of the base class,
  not of this module; the spec has it "raise \<^verbatim>\<open>GeoRestricted\<close>". Lines 187 to 192:
  the probe is made when no format was produced and the loop left a URL that is not
  empty.
\<close>

definition geo_check :: "backend \<Rightarrow> resolved \<Rightarrow> (error + unit) \<times> request list" where
  "geo_check b st =
     (case video_url st of
        None \<Rightarrow> (Inr (), [])
      | Some url \<Rightarrow>
          if formats st = [] \<and> url \<noteq> [] then
            (if geo_header (request_head b url) then Inl GeoRestricted else Inr (),
             [ReqHead url])
          else (Inr (), []))"

text \<open>Lines 194 to 197: the body of the loop over the formats.\<close>

definition tag_audio_description :: "helpers \<Rightarrow> pydict \<Rightarrow> pydict" where
  "tag_audio_description h f =
     (if dict_get f ''acodec'' \<noteq> JStr ''none''
         \<and> (dict_get f ''language'' = JStr ''qtz'' \<or> dict_get f ''language'' = JStr ''qad'')
      then (let f1 = AList.update ''language_preference'' (JInt (- 10)) f
            in AList.update ''format_note''
                 (JStr (''audio description'' @ format_field h f1 ''format_note'' '', %s'')) f1)
      else f)"

text \<open>
  Lines 199 to 215. \<^verbatim>\<open>for sheet in spritesheets\<close> walks the elements of a list, the
  characters of a string and the keys of a dictionary, and raises \<^verbatim>\<open>TypeError\<close> on
  a number or a boolean. \<open>utf8_chars\<close> cuts the bytes of a string into its
  characters.
\<close>

fun utf8_chars :: "string \<Rightarrow> string list" where
  "utf8_chars [] = []"
| "utf8_chars (b # bs) =
     (if (of_char b :: nat) < 192 \<or> 248 \<le> (of_char b :: nat) then [b] # utf8_chars bs
      else if (of_char b :: nat) < 224 then
        (case bs of
           b1 # r \<Rightarrow> [b, b1] # utf8_chars r
         | _ \<Rightarrow> [b # bs])
      else if (of_char b :: nat) < 240 then
        (case bs of
           b1 # b2 # r \<Rightarrow> [b, b1, b2] # utf8_chars r
         | _ \<Rightarrow> [b # bs])
      else
        (case bs of
           b1 # b2 # b3 # r \<Rightarrow> [b, b1, b2, b3] # utf8_chars r
         | _ \<Rightarrow> [b # bs]))"

definition py_iter :: "json \<Rightarrow> error + json list" where
  "py_iter v =
     (case v of
        JList xs \<Rightarrow> Inr xs
      | JStr s \<Rightarrow> Inr (map JStr (utf8_chars s))
      | JDict d \<Rightarrow> Inr (map (\<lambda>kv. JStr (fst kv)) d)
      | _ \<Rightarrow> Inl TypeError)"

definition storyboard :: "json list \<Rightarrow> pydict" where
  "storyboard sheets =
     [(''format_id'', JStr ''spritesheets''),
      (''format_note'', JStr ''storyboard''),
      (''acodec'', JStr ''none''),
      (''vcodec'', JStr ''none''),
      (''ext'', JStr ''mhtml''),
      (''protocol'', JStr ''mhtml''),
      (''url'', JStr ''about:invalid''),
      (''fragments'',
         JList (map (\<lambda>sheet. JDict [(''url'', sheet), (''duration'', JInt 200)]) sheets))]"

definition add_spritesheets :: "pydict list \<Rightarrow> json \<Rightarrow> error + pydict list" where
  "add_spritesheets fs sheets =
     (if truthy sheets then
        (case py_iter sheets of
           Inl e \<Rightarrow> Inl e
         | Inr xs \<Rightarrow> Inr (fs @ [storyboard xs]))
      else Inr fs)"

section \<open>Manifest assembly\<close>

text \<open>The dictionary \<^verbatim>\<open>_extract_video\<close> returns (lines 217 to 230), key by key.\<close>

record info_dict =
  info_id :: string
  info_title :: string
  info_thumbnail :: json
  info_duration :: json
  info_timestamp :: "int option"
  info_is_live :: json
  info_formats :: "pydict list"
  info_subtitles :: pydict
  info_episode :: json
  info_series :: json
  info_episode_number :: "int option"
  info_season_number :: "int option"

text \<open>The truth value of a text that may be \<^verbatim>\<open>None\<close>.\<close>

definition truthy_str :: "'a list option \<Rightarrow> bool" where
  "truthy_str v = (case v of None \<Rightarrow> False | Some s \<Rightarrow> s \<noteq> [])"

definition assemble ::
  "helpers \<Rightarrow> string \<Rightarrow> fetched \<Rightarrow> pydict list \<Rightarrow> pydict \<Rightarrow> info_dict" where
  "assemble h video_id m fs subs =
     \<lparr> info_id = video_id,
       info_title = str_strip h (join_nonempty h (title m) (subtitle m) '' - ''),
       info_thumbnail = image_val m,
       info_duration = duration m,
       info_timestamp = timestamp m,
       info_is_live = is_live m,
       info_formats = fs,
       info_subtitles = subs,
       info_episode = (if truthy_str (episode_number m) then subtitle m else JNull),
       info_series = (if truthy_str (episode_number m) then title m else JNull),
       info_episode_number = int_or_none h (episode_number m),
       info_season_number = int_or_none h (season_number m) \<rparr>"

text \<open>
  \<^verbatim>\<open>FranceTVIE._extract_video\<close> (lines 91 to 230). The argument \<open>catalogue\<close> is not
  read, as in the source.
\<close>

definition extract_video ::
  "helpers \<Rightarrow> backend \<Rightarrow> string \<Rightarrow> string option \<Rightarrow> json
     \<Rightarrow> (error + info_dict) \<times> request list" where
  "extract_video h b video_id catalogue hostname =
     (case fetch_metadata h b video_id hostname of
        (Inl e, reqs1) \<Rightarrow> (Inl e, reqs1)
      | (Inr m, reqs1) \<Rightarrow>
          (case resolve_loop h b resolved_init (videos m) of
             (st, reqs2) \<Rightarrow>
               (case geo_check b st of
                  (Inl e, reqs3) \<Rightarrow> (Inl e, reqs1 @ reqs2 @ reqs3)
                | (Inr u, reqs3) \<Rightarrow>
                    (case add_spritesheets (map (tag_audio_description h) (formats st))
                            (spritesheets m) of
                       Inl e \<Rightarrow> (Inl e, reqs1 @ reqs2 @ reqs3)
                     | Inr fs \<Rightarrow>
                         (Inr (assemble h video_id m fs (subtitles st)),
                          reqs1 @ reqs2 @ reqs3)))))"

section \<open>URL classification\<close>

definition strip_prefix :: "string \<Rightarrow> string \<Rightarrow> string option" where
  "strip_prefix p s = (if take (length p) s = p then Some (drop (length p) s) else None)"

text \<open>\<^verbatim>\<open>https?://\<close> at the start of the text.\<close>

definition strip_http :: "string \<Rightarrow> string option" where
  "strip_http s =
     (case strip_prefix ''https://'' s of
        Some r \<Rightarrow> Some r
      | None \<Rightarrow> strip_prefix ''http://'' s)"

text \<open>\<^verbatim>\<open>\w\<close> on ASCII text: a letter, a digit or the underscore.\<close>

definition is_word :: "char \<Rightarrow> bool" where
  "is_word c =
     (let n = (of_char c :: nat)
      in (48 \<le> n \<and> n \<le> 57) \<or> (65 \<le> n \<and> n \<le> 90) \<or> (97 \<le> n \<and> n \<le> 122) \<or> n = 95)"

text \<open>
  \<^verbatim>\<open>.*?\bidDiffusion=[^&]+\<close> from the current position: some position reached over
  characters other than the newline, where the character before is not a word character
  (\<^verbatim>\<open>i\<close> is one, so this is the word boundary), starts \<^verbatim>\<open>idDiffusion=\<close> followed
  by at least one character other than \<^verbatim>\<open>&\<close>. The flag tells whether the character
  before the current position is a word character.
\<close>

fun find_idDiffusion :: "bool \<Rightarrow> string \<Rightarrow> bool" where
  "find_idDiffusion prev_word [] = False"
| "find_idDiffusion prev_word (c # cs) =
     ((\<not> prev_word \<and>
        (case strip_prefix ''idDiffusion='' (c # cs) of
           Some (x # r) \<Rightarrow> x \<noteq> CHR ''&''
         | _ \<Rightarrow> False))
      \<or> (c \<noteq> CHR 0x0A \<and> find_idDiffusion (is_word c) cs))"

text \<open>The first alternative of \<^verbatim>\<open>_VALID_URL\<close> (lines 37 to 39); it has no group.\<close>

definition api_ping_match :: "string \<Rightarrow> bool" where
  "api_ping_match url =
     (case strip_http url of
        None \<Rightarrow> False
      | Some r \<Rightarrow>
          (case strip_prefix
                  ''sivideo.webservices.francetelevisions.fr/tools/getInfosOeuvre/v2/?'' r of
             None \<Rightarrow> False
           | Some q \<Rightarrow> find_idDiffusion False q))"

text \<open>The prefix of the second alternative (lines 40 to 43).\<close>

definition player_prefix :: "string \<Rightarrow> string option" where
  "player_prefix url =
     (case (case strip_http url of
              None \<Rightarrow> None
            | Some r \<Rightarrow> strip_prefix ''videos.francetv.fr/video/'' r) of
        Some rest \<Rightarrow> Some rest
      | None \<Rightarrow> strip_prefix ''francetv:'' url)"

text \<open>
  \<^verbatim>\<open>re.match(_VALID_URL, url)\<close> (lines 35 to 46): \<open>None\<close> when the URL does not
  match, else the groups \<^verbatim>\<open>id\<close> and \<^verbatim>\<open>catalog\<close>. \<^verbatim>\<open>[^@]+\<close> takes the longest
  run without \<^verbatim>\<open>@\<close>; the optional \<^verbatim>\<open>@(.+)\<close> takes the rest of the line when it is
  not empty. The match is anchored at the start only.
\<close>

definition match_valid_url :: "string \<Rightarrow> (string option \<times> string option) option" where
  "match_valid_url url =
     (if api_ping_match url then Some (None, None)
      else (case player_prefix url of
              None \<Rightarrow> None
            | Some rest \<Rightarrow>
                if takeWhile (\<lambda>c. c \<noteq> CHR ''@'') rest = [] then None
                else Some (Some (takeWhile (\<lambda>c. c \<noteq> CHR ''@'') rest),
                           (case dropWhile (\<lambda>c. c \<noteq> CHR ''@'') rest of
                              [] \<Rightarrow> None
                            | a # r \<Rightarrow>
                                if takeWhile (\<lambda>c. c \<noteq> CHR 0x0A) r = [] then None
                                else Some (takeWhile (\<lambda>c. c \<noteq> CHR 0x0A) r)))))"

text \<open>
  \<^verbatim>\<open>qs.get(key, [None])[0]\<close> on the parsed query string. \<^verbatim>\<open>parse_qs\<close> gives a
  dictionary from the names in the query to the lists of their values, none of them
  empty; the helper gives the list of a name, empty for a name that is not in the query.
\<close>

definition qs_first :: "(string \<Rightarrow> string list) \<Rightarrow> string \<Rightarrow> string option" where
  "qs_first qs key = (case qs key of [] \<Rightarrow> None | v # vs \<Rightarrow> Some v)"

text \<open>
  Lines 239 to 243: the identifier and the catalog read from the query string, and
  \<^verbatim>\<open>ExtractorError('Invalid URL', expected=True)\<close>, here \<open>InvalidURL\<close>, when the
  query string has no identifier.
\<close>

definition query_fallback ::
  "helpers \<Rightarrow> string \<Rightarrow> json \<Rightarrow> error + (string \<times> string option \<times> json)" where
  "query_fallback h url hostname =
     (case qs_first (parse_qs h url) ''idDiffusion'' of
        None \<Rightarrow> Inl InvalidURL
      | Some v \<Rightarrow>
          if v = [] then Inl InvalidURL
          else Inr (v, qs_first (parse_qs h url) ''catalogue'', hostname))"

text \<open>
  Lines 233 to 243 of \<^verbatim>\<open>FranceTVIE._real_extract\<close>: the identifier, the catalog and
  the smuggled hostname that are handed to \<^verbatim>\<open>_extract_video\<close>. A URL that
  \<^verbatim>\<open>_VALID_URL\<close> does not match has no match object and \<^verbatim>\<open>mobj.group\<close> raises
  \<^verbatim>\<open>AttributeError\<close>.
\<close>

definition classify_url :: "helpers \<Rightarrow> string \<Rightarrow> error + (string \<times> string option \<times> json)" where
  "classify_url h smuggled =
     (case unsmuggle_url h smuggled of
        (url, smuggled_data) \<Rightarrow>
          (case match_valid_url url of
             None \<Rightarrow> Inl AttributeError
           | Some (video_id, catalog) \<Rightarrow>
               (case video_id of
                  None \<Rightarrow> query_fallback h url (dict_get smuggled_data ''hostname'')
                | Some v \<Rightarrow>
                    if v = [] then query_fallback h url (dict_get smuggled_data ''hostname'')
                    else Inr (v, catalog, dict_get smuggled_data ''hostname''))))"

text \<open>\<^verbatim>\<open>FranceTVIE._real_extract\<close> (lines 232 to 245).\<close>

definition real_extract ::
  "helpers \<Rightarrow> backend \<Rightarrow> string \<Rightarrow> (error + info_dict) \<times> request list" where
  "real_extract h b url =
     (case classify_url h url of
        Inl e \<Rightarrow> (Inl e, [])
      | Inr (video_id, catalog, hostname) \<Rightarrow> extract_video h b video_id catalog hostname)"

section \<open>Delegated references\<close>

text \<open>
  What \<^verbatim>\<open>self.url_result(url, ie=..., video_id=...)\<close> is called with in
  \<^verbatim>\<open>FranceTVBaseInfoExtractor._make_url_result\<close> (lines 23 to 31).
\<close>

record url_result =
  result_url :: string
  result_ie_key :: string
  result_video_id :: string

definition make_url_result ::
  "helpers \<Rightarrow> string \<Rightarrow> string option \<Rightarrow> string option \<Rightarrow> url_result" where
  "make_url_result h video_or_full_id catalog url =
     (let full_id = ''francetv:'' @ video_or_full_id;
          full_id' = (if CHR ''@'' \<notin> set video_or_full_id \<and> truthy_str catalog
                      then full_id @ ''@'' @ (case catalog of Some c \<Rightarrow> c | None \<Rightarrow> [])
                      else full_id);
          full_id'' = (case url of
                         None \<Rightarrow> full_id'
                       | Some u \<Rightarrow>
                           if u \<noteq> []
                           then smuggle_url h full_id' [(''hostname'', urlparse_hostname h u)]
                           else full_id')
      in \<lparr> result_url = full_id'',
           result_ie_key = ''FranceTV'',
           result_video_id = takeWhile (\<lambda>c. c \<noteq> CHR ''@'') video_or_full_id \<rparr>)"

section \<open>Properties of the responses\<close>

text \<open>
  What one response contributes to the list of raw descriptors (lines 113 to 118): its
  \<^verbatim>\<open>video\<close> object, when the response is not empty and the object is a dictionary
  that is not empty.
\<close>

definition response_descriptors :: "json \<Rightarrow> pydict list" where
  "response_descriptors dinfo =
     (if \<not> truthy dinfo then []
      else (case traverse_dict dinfo ''video'' of
              None \<Rightarrow> []
            | Some video \<Rightarrow> if video = [] then [] else [video]))"

text \<open>
  The spec's reading of a response that "supplies stream descriptors": the objects under
  its \<^verbatim>\<open>video\<close> key, one for a single object, one per object for an array of them.
\<close>

definition spec_descriptor_count :: "json \<Rightarrow> nat" where
  "spec_descriptor_count dinfo =
     (case dinfo of
        JDict d \<Rightarrow>
          (case map_of d ''video'' of
             Some (JDict v) \<Rightarrow> 1
           | Some (JList vs) \<Rightarrow> length (filter (\<lambda>v. case v of JDict x \<Rightarrow> True | _ \<Rightarrow> False) vs)
           | _ \<Rightarrow> 0)
      | _ \<Rightarrow> 0)"

text \<open>
  The groups the episode pattern captures in the \<^verbatim>\<open>pre_title\<close> of a response, when
  the response reaches line 131 with a text that matches.
\<close>

definition pre_title_match :: "helpers \<Rightarrow> json \<Rightarrow> (nat list \<times> nat list) option" where
  "pre_title_match h dinfo =
     (if \<not> truthy dinfo then None
      else (case traverse_dict dinfo ''meta'' of
              None \<Rightarrow> None
            | Some meta \<Rightarrow>
                if meta = [] then None
                else (case dict_get meta ''pre_title'' of
                        JStr s \<Rightarrow> search_episode h (utf8_decode s)
                      | _ \<Rightarrow> None)))"

text \<open>
  The pattern \<^verbatim>\<open>S(\d+)\s*E(\d+)\<close> as a statement on a text: the text is \<open>pre\<close>,
  \<^verbatim>\<open>S\<close>, a run \<open>sn\<close> of digits that is not empty, a run \<open>ws\<close> of whitespace,
  \<^verbatim>\<open>E\<close>, a run \<open>en\<close> of digits that is not empty, and \<open>post\<close>.
\<close>

definition episode_parse ::
  "helpers \<Rightarrow> nat list \<Rightarrow> nat list \<Rightarrow> nat list \<Rightarrow> nat list \<Rightarrow> nat list \<Rightarrow> nat list \<Rightarrow> bool" where
  "episode_parse h s pre sn ws en post =
     (s = pre @ [83] @ sn @ ws @ [69] @ en @ post
      \<and> sn \<noteq> [] \<and> list_all (is_digit h) sn
      \<and> list_all is_space ws
      \<and> en \<noteq> [] \<and> list_all (is_digit h) en)"

text \<open>The descriptors the format loop runs over (line 141).\<close>

definition candidates :: "helpers \<Rightarrow> pydict list \<Rightarrow> pydict list" where
  "candidates h vs = filter (\<lambda>v. candidate_url h v \<noteq> None) vs"

text \<open>
  Modelled from the spec: the format sorter of the framework is not in this module. The
  spec speaks of the "default preference" of a format; the sorter ranks a format that
  has no \<^verbatim>\<open>language_preference\<close> with the default \<open>-1\<close>, and any other format
  with the number it has.
\<close>

definition default_language_preference :: int where
  "default_language_preference = - 1"

definition language_preference_of :: "pydict \<Rightarrow> int" where
  "language_preference_of f =
     (case dict_get f ''language_preference'' of
        JInt n \<Rightarrow> n
      | _ \<Rightarrow> default_language_preference)"

text \<open>The condition of line 195 on a format.\<close>

definition is_audio_description :: "pydict \<Rightarrow> bool" where
  "is_audio_description f =
     (dict_get f ''acodec'' \<noteq> JStr ''none''
      \<and> (dict_get f ''language'' = JStr ''qtz'' \<or> dict_get f ''language'' = JStr ''qad''))"

section \<open>Sample collaborators\<close>

text \<open>
  Concrete collaborators on which the definitions above are evaluated: helpers that
  accept \<^verbatim>\<open>http\<close> and \<^verbatim>\<open>rtmp\<close> URLs, take the extension after the last dot,
  strip blanks and know the Arabic-Indic and the fullwidth digits,
  and a backend that answers the two device profiles with given payloads, parses no
  manifest, validates no direct URL and answers every probe without headers.
\<close>

definition sample_qs :: "string \<Rightarrow> string \<Rightarrow> string list" where
  "sample_qs url key =
     (if url = ''https://sivideo.webservices.francetelevisions.fr/tools/getInfosOeuvre/v2/?idDiffusion=NI_1004933&catalogue=Zouzous''
      then (if key = ''idDiffusion'' then [''NI_1004933'']
            else if key = ''catalogue'' then [''Zouzous'']
            else [])
      else [])"

definition sample_helpers :: helpers where
  "sample_helpers =
     \<lparr> url_or_none_str =
         (\<lambda>s. if take 4 s = ''http'' \<or> take 4 s = ''rtmp'' then Some s else None),
       determine_ext = (\<lambda>s. rev (takeWhile (\<lambda>c. c \<noteq> CHR ''.'') (rev s))),
       parse_iso8601 = (\<lambda>v. None),
       py_str = (\<lambda>v. case v of JStr s \<Rightarrow> s | _ \<Rightarrow> ''None''),
       format_field =
         (\<lambda>f k t. case map_of f k of Some (JStr s) \<Rightarrow> '', '' @ s | _ \<Rightarrow> []),
       join_nonempty =
         (\<lambda>a b d. case a of
                     JStr x \<Rightarrow> (case b of JStr y \<Rightarrow> x @ d @ y | _ \<Rightarrow> x)
                   | _ \<Rightarrow> (case b of JStr y \<Rightarrow> y | _ \<Rightarrow> [])),
       merge_subtitles = (\<lambda>subs target. target @ subs),
       parse_qs = sample_qs,
       unsmuggle_url = (\<lambda>s. (s, [])),
       smuggle_url = (\<lambda>s d. s),
       urlparse_hostname = (\<lambda>u. JNull),
       str_strip =
         (\<lambda>s. rev (dropWhile (\<lambda>c. c = CHR '' '') (rev (dropWhile (\<lambda>c. c = CHR '' '') s)))),
       unicode_decimal =
         (\<lambda>c. if 1632 \<le> c \<and> c \<le> 1641 then Some (c - 1632)
              else if 65296 \<le> c \<and> c \<le> 65305 then Some (c - 65296)
              else None) \<rparr>"

definition sample_backend :: "json \<Rightarrow> json \<Rightarrow> backend" where
  "sample_backend desktop mobile =
     \<lparr> download_video_json =
         (\<lambda>video_id device_type hostname.
            if device_type = ''desktop'' then desktop
            else if device_type = ''mobile'' then mobile
            else JBool False),
       download_token_json = (\<lambda>token_url url. JBool False),
       extract_f4m_formats = (\<lambda>url format_id. []),
       extract_m3u8_formats_and_subtitles = (\<lambda>url format_id. ([], [])),
       extract_mpd_formats_and_subtitles = (\<lambda>url format_id. ([], [])),
       is_valid_url = (\<lambda>url format_id. False),
       request_head = (\<lambda>url. Some []) \<rparr>"


text \<open>Sample payloads of the device profiles.\<close>

definition storyboard_payload :: json where
  "storyboard_payload =
     JDict [(''video'',
             JDict [(''url'', JStr ''https://x/v.mp4''),
                    (''spritesheets'',
                       JList [JStr ''https://x/s1.jpg'', JStr ''https://x/s2.jpg''])])]"

definition direct_payload :: json where
  "direct_payload = JDict [(''video'', JDict [(''url'', JStr ''https://x/v.mp4'')])]"

definition episode_payload :: json where
  "episode_payload =
     JDict [(''meta'',
             JDict [(''title'', JStr ''Foot2Rue''),
                    (''pre_title'', JStr ''S1 E3''),
                    (''additional_title'', JStr ''Duel au vieux port'')])]"

text \<open>
  The pre-title \<^verbatim>\<open>S1 E3\<close> written with a no-break space (U+00A0, the bytes C2 A0),
  and a pre-title without episode marker.
\<close>

definition nbsp_payload :: json where
  "nbsp_payload =
     JDict [(''meta'',
             JDict [(''title'', JStr ''Foot2Rue''),
                    (''pre_title'', JStr (''S1'' @ [CHR 0xC2, CHR 0xA0] @ ''E3'')),
                    (''additional_title'', JStr ''Duel au vieux port'')])]"

definition bonus_payload :: json where
  "bonus_payload =
     JDict [(''meta'',
             JDict [(''title'', JStr ''Foot2Rue''),
                    (''pre_title'', JStr ''Saison 1 Bonus''),
                    (''additional_title'', JStr ''Making of'')])]"

definition plain_payload :: json where
  "plain_payload = JDict [(''meta'', JDict [(''title'', JStr ''Foot2Rue'')])]"

definition array_payload :: json where
  "array_payload =
     JDict [(''video'',
             JList [JDict [(''url'', JStr ''https://x/a.m3u8'')],
                    JDict [(''url'', JStr ''https://x/b.m3u8'')]])]"

definition single_payload :: json where
  "single_payload = JDict [(''video'', JDict [(''url'', JStr ''https://x/c.m3u8'')])]"

definition dash_payload :: json where
  "dash_payload =
     JDict [(''video'', JDict [(''url'', JStr ''https://x/manifest.mpd''),
                               (''format'', JStr ''dash'')])]"

text \<open>
  A backend whose DASH manifest holds a video-only rendition and an audio rendition, both
  tagged \<^verbatim>\<open>qad\<close>.
\<close>

definition dash_backend :: backend where
  "dash_backend =
     (sample_backend dash_payload (JBool False))
       \<lparr> extract_mpd_formats_and_subtitles :=
           (\<lambda>url format_id.
              ([[(''format_id'', JStr ''dash-video''), (''acodec'', JStr ''none''),
                 (''language'', JStr ''qad'')],
                [(''format_id'', JStr ''dash-audio''), (''acodec'', JStr ''mp4a.40.2''),
                 (''language'', JStr ''qad'')]],
               [])) \<rparr>"

definition token_payload :: json where
  "token_payload =
     JDict [(''video'', JDict [(''url'', JStr ''https://x/master.m3u8''),
                               (''format'', JStr ''hls''),
                               (''token'', JStr ''https://x/token''),
                               (''workflow'', JStr ''token-akamai'')])]"

text \<open>
  A backend whose token endpoint answers with a signed URL, and whose HLS parser finds
  one format, located at the URL it was given.
\<close>

definition token_backend :: backend where
  "token_backend =
     (sample_backend token_payload (JBool False))
       \<lparr> download_token_json :=
           (\<lambda>token_url url. JDict [(''url'', JStr ''https://cdn/signed.m3u8'')]),
         extract_m3u8_formats_and_subtitles :=
           (\<lambda>url format_id. ([[(''url'', JStr url), (''format_id'', format_id)]], [])) \<rparr>"

text \<open>
  A backend with two descriptors, a direct URL from the desktop profile and a tokenized
  HLS URL from the mobile profile, that finds no format in either and answers every
  probe with the geo-signalling header, written \<^verbatim>\<open>X-ErrorType\<close>.
\<close>

definition geo_backend :: backend where
  "geo_backend =
     (sample_backend direct_payload token_payload)
       \<lparr> download_token_json :=
           (\<lambda>token_url url. JDict [(''url'', JStr ''https://cdn/signed.m3u8'')]),
         request_head :=
           (\<lambda>url. Some [(''Content-Type'', ''text/html''), (''X-ErrorType'', ''geo'')]) \<rparr>"



text \<open>The same backend with a token endpoint that fails.\<close>

definition token_failing_backend :: backend where
  "token_failing_backend =
     token_backend \<lparr> download_token_json := (\<lambda>token_url url. JBool False) \<rparr>"

definition token_video :: pydict where
  "token_video =
     [(''url'', JStr ''https://x/master.m3u8''),
      (''format'', JStr ''hls''),
      (''token'', JStr ''https://x/token''),
      (''workflow'', JStr ''token-akamai'')]"

definition plain_video :: pydict where
  "plain_video = [(''url'', JStr ''https://x/master.m3u8''), (''format'', JStr ''hls'')]"

text \<open>
  What one response supplies for the merged fields: the \<^verbatim>\<open>meta\<close> and \<^verbatim>\<open>video\<close>
  objects the loop reads (the empty dictionary when the loop reads none), and whether
  the response reaches line 128.
\<close>

definition has_meta :: "json \<Rightarrow> bool" where
  "has_meta dinfo =
     (truthy dinfo \<and> (case traverse_dict dinfo ''meta'' of
                         None \<Rightarrow> False
                       | Some meta \<Rightarrow> meta \<noteq> []))"

definition response_meta :: "json \<Rightarrow> pydict" where
  "response_meta dinfo =
     (if \<not> truthy dinfo then []
      else (case traverse_dict dinfo ''meta'' of None \<Rightarrow> [] | Some meta \<Rightarrow> meta))"

definition response_video :: "json \<Rightarrow> pydict" where
  "response_video dinfo =
     (if \<not> truthy dinfo then []
      else (case traverse_dict dinfo ''video'' of None \<Rightarrow> [] | Some video \<Rightarrow> video))"

definition response_timestamp :: "helpers \<Rightarrow> json \<Rightarrow> int option" where
  "response_timestamp h dinfo =
     (if has_meta dinfo then parse_iso8601 h (dict_get (response_meta dinfo) ''broadcasted_at'')
      else None)"

text \<open>The first value that is not \<^verbatim>\<open>None\<close>, of two.\<close>

definition first_non_null :: "json \<Rightarrow> json \<Rightarrow> json" where
  "first_non_null a b = (if a \<noteq> JNull then a else b)"

text \<open>
  The URL shapes of the spec: what precedes the identifier in a legacy URL or an internal
  reference, and what precedes the query string in an API-ping URL.
\<close>

definition player_prefixes :: "string list" where
  "player_prefixes =
     [''francetv:'', ''http://videos.francetv.fr/video/'', ''https://videos.francetv.fr/video/'']"

definition api_ping_prefixes :: "string list" where
  "api_ping_prefixes =
     [''http://sivideo.webservices.francetelevisions.fr/tools/getInfosOeuvre/v2/?'',
      ''https://sivideo.webservices.francetelevisions.fr/tools/getInfosOeuvre/v2/?'']"

section \<open>Delegated references keep their own catalog\<close>

lemma takeWhile_until_split:
  assumes "c \<in> set s"
  shows "\<exists>rest. s = takeWhile (\<lambda>x. x \<noteq> c) s @ c # rest"
proof -
  from assms have "dropWhile (\<lambda>x. x \<noteq> c) s \<noteq> []"
    by (simp add: dropWhile_eq_Nil_conv)
  then obtain y rest where d: "dropWhile (\<lambda>x. x \<noteq> c) s = y # rest"
    by (cases "dropWhile (\<lambda>x. x \<noteq> c) s") auto
  then have "y = c"
    using hd_dropWhile [of "\<lambda>x. x \<noteq> c" s] by force
  with d have "s = takeWhile (\<lambda>x. x \<noteq> c) s @ c # rest"
    using takeWhile_dropWhile_id [of "\<lambda>x. x \<noteq> c" s] by simp
  then show ?thesis by blast
qed

text \<open>
  Claim C10. When the identifier handed to \<^verbatim>\<open>_make_url_result\<close> already holds an
  \<^verbatim>\<open>@\<close>, the catalog argument has no effect on the result: the reference is
  \<^verbatim>\<open>francetv:\<close> followed by the identifier as it is, with no second catalog suffix,
  and the \<^verbatim>\<open>video_id\<close> of the result is the part of the identifier before its first
  \<^verbatim>\<open>@\<close>.
\<close>

theorem make_url_result_full_id:
  assumes "CHR ''@'' \<in> set video_or_full_id"
  shows "make_url_result h video_or_full_id catalog url
           = make_url_result h video_or_full_id None url
         \<and> result_url (make_url_result h video_or_full_id catalog None)
             = ''francetv:'' @ video_or_full_id
         \<and> CHR ''@'' \<notin> set (result_video_id (make_url_result h video_or_full_id catalog url))
         \<and> (\<exists>rest. video_or_full_id
               = result_video_id (make_url_result h video_or_full_id catalog url)
                   @ CHR ''@'' # rest)"
proof -
  have same: "make_url_result h video_or_full_id catalog url
                = make_url_result h video_or_full_id None url"
    using assms by (simp add: make_url_result_def)
  have plain: "result_url (make_url_result h video_or_full_id catalog None)
                 = ''francetv:'' @ video_or_full_id"
    using assms by (simp add: make_url_result_def)
  have before: "CHR ''@'' \<notin> set (result_video_id (make_url_result h video_or_full_id catalog url))"
    by (auto simp: make_url_result_def Let_def dest: set_takeWhileD)
  have split: "\<exists>rest. video_or_full_id
                 = result_video_id (make_url_result h video_or_full_id catalog url)
                     @ CHR ''@'' # rest"
    using takeWhile_until_split [OF assms] by (simp add: make_url_result_def Let_def)
  from same plain before split show ?thesis by blast
qed

theorem make_url_result_full_id_witness:
  "CHR ''@'' \<in> set ''NI_983319@Info-web''
   \<and> make_url_result sample_helpers ''NI_983319@Info-web'' (Some ''Zouzous'') None
       = \<lparr> result_url = ''francetv:NI_983319@Info-web'', result_ie_key = ''FranceTV'',
           result_video_id = ''NI_983319'' \<rparr>"
  using make_url_result_full_id
          [of "''NI_983319@Info-web''" sample_helpers "Some ''Zouzous''" None]
  by (simp add: make_url_result_def)

section \<open>Unfolding the resolution\<close>

lemmas model_defs =
  fetch_metadata_def device_types_def fetched_init_def merge_dinfo_def merge_video_def
  merge_meta_def traverse_dict_def dict_get_def search_episode_info_def
  match_episode_at_def is_digit_def is_space_def resolved_init_def process_video_def
  candidate_url_def sign_url_def tokenized_url_def url_or_none_def add_formats_def
  geo_check_def geo_header_def tag_audio_description_def add_spritesheets_def py_iter_def
  storyboard_def assemble_def headers_get_def lower_ascii_def truthy_str_def int_or_none_def digit_val_def
  extract_video_def sample_helpers_def sample_backend_def

lemma extract_video_Inr:
  assumes "fst (fetch_metadata h b video_id hostname) = Inr m"
    and "fst (geo_check b (fst (resolve_loop h b resolved_init (videos m)))) = Inr ()"
    and "add_spritesheets (map (tag_audio_description h)
            (formats (fst (resolve_loop h b resolved_init (videos m))))) (spritesheets m)
           = Inr fs"
  shows "fst (extract_video h b video_id catalogue hostname)
           = Inr (assemble h video_id m fs
                    (subtitles (fst (resolve_loop h b resolved_init (videos m)))))"
  using assms
  by (auto simp: extract_video_def split: prod.splits sum.splits)

lemma extract_video_unfold:
  assumes "fst (fetch_metadata h b video_id hostname) = Inr m"
  shows "extract_video h b video_id catalogue hostname =
     (case geo_check b (fst (resolve_loop h b resolved_init (videos m))) of
        (Inl e, reqs3) \<Rightarrow>
           (Inl e, snd (fetch_metadata h b video_id hostname)
                     @ snd (resolve_loop h b resolved_init (videos m)) @ reqs3)
      | (Inr u, reqs3) \<Rightarrow>
           (case add_spritesheets
                   (map (tag_audio_description h)
                      (formats (fst (resolve_loop h b resolved_init (videos m)))))
                   (spritesheets m) of
              Inl e \<Rightarrow> (Inl e, snd (fetch_metadata h b video_id hostname)
                     @ snd (resolve_loop h b resolved_init (videos m)) @ reqs3)
            | Inr fs \<Rightarrow>
                (Inr (assemble h video_id m fs
                        (subtitles (fst (resolve_loop h b resolved_init (videos m))))),
                 snd (fetch_metadata h b video_id hostname)
                     @ snd (resolve_loop h b resolved_init (videos m)) @ reqs3)))"
  using assms
  by (auto simp: extract_video_def split: prod.splits sum.splits)

lemma extract_video_InrD:
  assumes "fst (extract_video h b video_id catalogue hostname) = Inr info"
  shows "\<exists>m fs. fst (fetch_metadata h b video_id hostname) = Inr m
           \<and> fst (geo_check b (fst (resolve_loop h b resolved_init (videos m)))) = Inr ()
           \<and> add_spritesheets (map (tag_audio_description h)
                 (formats (fst (resolve_loop h b resolved_init (videos m))))) (spritesheets m)
               = Inr fs
           \<and> info = assemble h video_id m fs
                      (subtitles (fst (resolve_loop h b resolved_init (videos m))))"
  using assms
  by (auto simp: extract_video_def split: prod.splits sum.splits)

lemma process_video_no_candidate:
  "candidate_url h video = None \<Longrightarrow> process_video h b st video = (st, [])"
  by (simp add: process_video_def)

lemma resolve_loop_no_candidate:
  "\<forall>v\<in>set vs. candidate_url h v = None \<Longrightarrow> resolve_loop h b st vs = (st, [])"
  by (induction vs arbitrary: st) (simp_all add: process_video_no_candidate)

section \<open>Storyboard format\<close>

text \<open>
  Claim C8. When the merged \<^verbatim>\<open>spritesheets\<close> value is a list that is not empty (and
  the resolution is not stopped by the geo-restriction check), the manifest is returned
  and its formats are the resolved formats followed by exactly one more format, the
  storyboard: its note is \<^verbatim>\<open>storyboard\<close>, it has as many fragments as there are
  sheets, and the fragment at each position holds the sheet at that position and the
  duration 200.
\<close>

theorem spritesheets_storyboard:
  assumes "fst (fetch_metadata h b video_id hostname) = Inr m"
    and "fst (resolve_loop h b resolved_init (videos m)) = st"
    and "fst (geo_check b st) = Inr ()"
    and "spritesheets m = JList sheets"
    and "sheets \<noteq> []"
  shows "\<exists>info frags.
           fst (extract_video h b video_id catalogue hostname) = Inr info
           \<and> info_formats info
               = map (tag_audio_description h) (formats st) @ [storyboard sheets]
           \<and> dict_get (storyboard sheets) ''format_note'' = JStr ''storyboard''
           \<and> dict_get (storyboard sheets) ''fragments'' = JList frags
           \<and> length frags = length sheets
           \<and> (\<forall>i<length sheets.
                 frags ! i = JDict [(''url'', sheets ! i), (''duration'', JInt 200)])"
proof -
  let ?fs = "map (tag_audio_description h) (formats st) @ [storyboard sheets]"
  let ?info = "assemble h video_id m ?fs (subtitles st)"
  let ?frags = "map (\<lambda>sheet. JDict [(''url'', sheet), (''duration'', JInt 200)]) sheets"
  have sp: "add_spritesheets (map (tag_audio_description h) (formats st)) (spritesheets m)
              = Inr ?fs"
    using assms(4,5) by (simp add: add_spritesheets_def py_iter_def)
  have ex: "fst (extract_video h b video_id catalogue hostname) = Inr ?info"
    using extract_video_Inr [of h b video_id hostname m _ catalogue] assms(1,2,3) sp by simp
  have fr: "dict_get (storyboard sheets) ''fragments'' = JList ?frags"
    by (simp add: storyboard_def dict_get_def)
  have nt: "dict_get (storyboard sheets) ''format_note'' = JStr ''storyboard''"
    by (simp add: storyboard_def dict_get_def)
  have each: "\<forall>i<length sheets.
                ?frags ! i = JDict [(''url'', sheets ! i), (''duration'', JInt 200)]"
    by simp
  have fmts: "info_formats ?info = ?fs"
    by (simp add: assemble_def)
  from ex fr nt each fmts show ?thesis
    by (intro exI [of _ ?info] exI [of _ ?frags]) simp
qed

theorem spritesheets_storyboard_witness:
  "\<exists>info frags.
     fst (extract_video sample_helpers (sample_backend storyboard_payload (JBool False))
            ''vid'' None JNull) = Inr info
     \<and> info_formats info = [storyboard [JStr ''https://x/s1.jpg'', JStr ''https://x/s2.jpg'']]
     \<and> dict_get (storyboard [JStr ''https://x/s1.jpg'', JStr ''https://x/s2.jpg''])
          ''fragments'' = JList frags
     \<and> length frags = 2"
proof -
  let ?h = sample_helpers and ?b = "sample_backend storyboard_payload (JBool False)"
  let ?sheets = "[JStr ''https://x/s1.jpg'', JStr ''https://x/s2.jpg'']"
  let ?m = "\<lparr> is_live = JNull,
              videos = [[(''url'', JStr ''https://x/v.mp4''),
                         (''spritesheets'', JList ?sheets)]],
              title = JNull, subtitle = JNull, episode_number = None,
              season_number = None, image_val = JNull, duration = JNull,
              timestamp = None, spritesheets = JList ?sheets \<rparr>"
  let ?st = "\<lparr> formats = [], subtitles = [], video_url = Some ''https://x/v.mp4'' \<rparr>"
  have 1: "fst (fetch_metadata ?h ?b ''vid'' JNull) = Inr ?m"
    by (simp add: model_defs storyboard_payload_def)
  have 2: "fst (resolve_loop ?h ?b resolved_init (videos ?m)) = ?st"
    by (simp add: model_defs)
  have 3: "fst (geo_check ?b ?st) = Inr ()"
    by (simp add: model_defs)
  have 4: "spritesheets ?m = JList ?sheets"
    by simp
  have 5: "?sheets \<noteq> []"
    by simp
  show ?thesis
    using spritesheets_storyboard [OF 1 2 3 4 5, of None] by auto
qed

section \<open>Geo-restriction check\<close>

lemma geo_check_probe:
  assumes "formats st = []" and "video_url st = Some url" and "url \<noteq> []"
  shows "geo_check b st =
           (if geo_header (request_head b url) then Inl GeoRestricted else Inr (),
            [ReqHead url])"
  using assms by (simp add: geo_check_def)

lemma add_formats_video_url:
  "video_url (fst (add_formats h b st format_id url)) = video_url st"
  by (simp add: add_formats_def split: prod.splits)

lemma process_video_video_url:
  assumes "candidate_url h video = Some url"
  shows "video_url (fst (process_video h b st video)) = Some (fst (sign_url h b video url))"
proof -
  obtain signed reqs1 where s: "sign_url h b video url = (signed, reqs1)"
    by (cases "sign_url h b video url")
  have "fst (process_video h b st video)
          = fst (add_formats h b (st\<lparr> video_url := Some signed \<rparr>)
                   (dict_get video ''format'') signed)"
    using assms s by (simp add: process_video_def split: prod.splits)
  then show ?thesis
    by (simp add: add_formats_video_url s)
qed

text \<open>
  The URL the loop leaves behind is the URL, signed if the exchange gave one, of the
  last descriptor it ran over.
\<close>

lemma resolve_loop_video_url:
  "video_url (fst (resolve_loop h b st vs))
     = (if candidates h vs = [] then video_url st
        else (case candidate_url h (last (candidates h vs)) of
                None \<Rightarrow> None
              | Some url \<Rightarrow> Some (fst (sign_url h b (last (candidates h vs)) url))))"
proof (induction vs arbitrary: st)
  case Nil
  show ?case by (simp add: candidates_def)
next
  case (Cons v vs)
  obtain st' reqs where p: "process_video h b st v = (st', reqs)"
    by (cases "process_video h b st v")
  have step: "video_url (fst (resolve_loop h b st (v # vs)))
                = video_url (fst (resolve_loop h b st' vs))"
    using p by (simp split: prod.splits)
  show ?case
  proof (cases "candidate_url h v")
    case None
    then have "st' = st"
      using p by (simp add: process_video_def)
    moreover have same: "candidates h (v # vs) = candidates h vs"
      using None by (simp add: candidates_def)
    ultimately show ?thesis
      unfolding step Cons.IH same by simp
  next
    case (Some url)
    have here: "video_url st' = Some (fst (sign_url h b v url))"
      using process_video_video_url [OF Some, of b st] p by simp
    have cs: "candidates h (v # vs) = v # candidates h vs"
      using Some by (simp add: candidates_def)
    show ?thesis
    proof (cases "candidates h vs = []")
      case True
      then show ?thesis
        unfolding step Cons.IH cs using here Some by simp
    next
      case False
      then have "last (v # candidates h vs) = last (candidates h vs)"
        by simp
      with False show ?thesis
        unfolding step Cons.IH cs by (simp split: option.splits)
    qed
  qed
qed

lemma last_candidate:
  assumes "candidates h vs \<noteq> []"
  shows "last (candidates h vs) \<in> set vs
         \<and> candidate_url h (last (candidates h vs)) \<noteq> None"
proof -
  have "last (candidates h vs) \<in> set (candidates h vs)"
    using assms by simp
  then show ?thesis by (simp add: candidates_def)
qed

text \<open>
  Claim C3, as amended. Take a resolution whose descriptors produced no format while the
  loop left a URL behind. That URL is the URL of the last descriptor with a candidate
  URL, or the signed URL the token exchange gave for that descriptor. The last request
  issued is a HEAD probe of that URL, and \<^verbatim>\<open>GeoRestricted\<close> is raised if and only if
  the probe is answered with the header \<^verbatim>\<open>x-errortype: geo\<close>. Without that header
  the manifest is returned with no playable format: its list of formats is empty when
  the merged \<^verbatim>\<open>spritesheets\<close> value is empty, and holds the storyboard format alone
  when that value is a list that is not empty.
\<close>

theorem geo_probe_outcome:
  assumes "fst (fetch_metadata h b video_id hostname) = Inr m"
    and "fst (resolve_loop h b resolved_init (videos m)) = st"
    and "formats st = []"
    and "video_url st = Some url"
    and "url \<noteq> []"
  shows "(\<exists>v\<in>set (videos m). \<exists>url0.
            candidates h (videos m) \<noteq> [] \<and> v = last (candidates h (videos m))
            \<and> candidate_url h v = Some url0 \<and> url = fst (sign_url h b v url0))
         \<and> last (snd (extract_video h b video_id catalogue hostname)) = ReqHead url
         \<and> (fst (extract_video h b video_id catalogue hostname) = Inl GeoRestricted
              \<longleftrightarrow> geo_header (request_head b url))
         \<and> (\<not> geo_header (request_head b url) \<and> \<not> truthy (spritesheets m)
              \<longrightarrow> (\<exists>info. fst (extract_video h b video_id catalogue hostname) = Inr info
                          \<and> info_formats info = []))
         \<and> (\<forall>sheets. \<not> geo_header (request_head b url) \<and> spritesheets m = JList sheets
                      \<and> sheets \<noteq> []
              \<longrightarrow> (\<exists>info. fst (extract_video h b video_id catalogue hostname) = Inr info
                          \<and> info_formats info = [storyboard sheets]))"
proof -
  let ?r = "extract_video h b video_id catalogue hostname"
  let ?cs = "candidates h (videos m)"
  have gc: "geo_check b st =
              (if geo_header (request_head b url) then Inl GeoRestricted else Inr (),
               [ReqHead url])"
    using assms(3,4,5) by (rule geo_check_probe)
  note unf = extract_video_unfold [OF assms(1), of catalogue, unfolded assms(2) gc]
  have left: "video_url st
                = (if ?cs = [] then None
                   else (case candidate_url h (last ?cs) of
                           None \<Rightarrow> None
                         | Some url0 \<Rightarrow> Some (fst (sign_url h b (last ?cs) url0))))"
    using resolve_loop_video_url [of h b resolved_init "videos m"] assms(2)
    by (simp add: resolved_init_def)
  have ne: "?cs \<noteq> []"
    using left assms(4) by auto
  from last_candidate [OF ne] obtain url0 where
    mem: "last ?cs \<in> set (videos m)" and c: "candidate_url h (last ?cs) = Some url0"
    by auto
  have "url = fst (sign_url h b (last ?cs) url0)"
    using left assms(4) ne c by simp
  with ne mem c have cand:
    "\<exists>v\<in>set (videos m). \<exists>url0.
       ?cs \<noteq> [] \<and> v = last ?cs \<and> candidate_url h v = Some url0
       \<and> url = fst (sign_url h b v url0)"
    by blast
  have probe: "last (snd ?r) = ReqHead url"
    by (simp add: unf split: sum.splits)
  have geo: "fst ?r = Inl GeoRestricted \<longleftrightarrow> geo_header (request_head b url)"
    by (auto simp: unf add_spritesheets_def py_iter_def assms(3) split: sum.splits json.splits)
  have none: "\<not> geo_header (request_head b url) \<and> \<not> truthy (spritesheets m)
              \<longrightarrow> (\<exists>info. fst ?r = Inr info \<and> info_formats info = [])"
    by (simp add: unf add_spritesheets_def assms(3) assemble_def)
  have board: "\<forall>sheets. \<not> geo_header (request_head b url) \<and> spritesheets m = JList sheets
                      \<and> sheets \<noteq> []
              \<longrightarrow> (\<exists>info. fst ?r = Inr info \<and> info_formats info = [storyboard sheets])"
    by (simp add: unf add_spritesheets_def py_iter_def assms(3) assemble_def)
  from cand probe geo none board show ?thesis by blast
qed

theorem geo_probe_outcome_witness:
  "extract_video sample_helpers geo_backend ''vid'' None JNull
     = (Inl GeoRestricted,
        [ReqVideoJSON ''vid'' ''desktop'' JNull,
         ReqVideoJSON ''vid'' ''mobile'' JNull,
         ReqIsValid ''https://x/v.mp4'' JNull,
         ReqTokenJSON ''https://x/token'' ''https://x/master.m3u8'',
         ReqM3U8 ''https://cdn/signed.m3u8'' (JStr ''hls''),
         ReqHead ''https://cdn/signed.m3u8''])
   \<and> geo_header (request_head geo_backend ''https://cdn/signed.m3u8'')
   \<and> last (candidates sample_helpers [[(''url'', JStr ''https://x/v.mp4'')], token_video])
       = token_video"
proof -
  let ?h = sample_helpers and ?b = geo_backend
  let ?m = "fetched_init \<lparr> videos := [[(''url'', JStr ''https://x/v.mp4'')], token_video] \<rparr>"
  let ?st = "\<lparr> formats = [], subtitles = [],
               video_url = Some ''https://cdn/signed.m3u8'' \<rparr>"
  have 1: "fst (fetch_metadata ?h ?b ''vid'' JNull) = Inr ?m"
    by (simp add: model_defs geo_backend_def direct_payload_def token_payload_def
          token_video_def)
  have 2: "fst (resolve_loop ?h ?b resolved_init (videos ?m)) = ?st"
    by (simp add: model_defs geo_backend_def token_video_def)
  have 3: "formats ?st = []"
    by simp
  have 4: "video_url ?st = Some ''https://cdn/signed.m3u8''"
    by simp
  have 5: "''https://cdn/signed.m3u8'' \<noteq> []"
    by simp
  have 6: "geo_header (request_head ?b ''https://cdn/signed.m3u8'')"
    by (simp add: geo_backend_def geo_header_def headers_get_def lower_ascii_def)
  have "fst (extract_video ?h ?b ''vid'' None JNull) = Inl GeoRestricted"
    using geo_probe_outcome [OF 1 2 3 4 5, of None] 6 by simp
  then show ?thesis
    using 6
    by (simp add: model_defs geo_backend_def direct_payload_def token_payload_def
          token_video_def candidates_def)
qed

text \<open>
  The claim as stated fails when spritesheets are present: the only descriptor has a
  candidate URL and yields no format, the probe is answered without the header, and the
  manifest comes back with one format, the storyboard.
\<close>

theorem geo_probe_storyboard_counterexample:
  "formats (fst (resolve_loop sample_helpers
                   (sample_backend storyboard_payload (JBool False)) resolved_init
                   [[(''url'', JStr ''https://x/v.mp4''),
                     (''spritesheets'',
                        JList [JStr ''https://x/s1.jpg'', JStr ''https://x/s2.jpg''])]])) = []
   \<and> \<not> geo_header (request_head (sample_backend storyboard_payload (JBool False))
                      ''https://x/v.mp4'')
   \<and> (case fst (extract_video sample_helpers
                   (sample_backend storyboard_payload (JBool False)) ''vid'' None JNull) of
         Inl e \<Rightarrow> False
       | Inr info \<Rightarrow> info_formats info \<noteq> [] \<and> length (info_formats info) = 1)"
  by (simp add: model_defs storyboard_payload_def)

section \<open>Audio-description formats\<close>

lemma add_spritesheets_prefix:
  "add_spritesheets fs sheets = Inr fs' \<Longrightarrow> take (length fs) fs' = fs"
  by (auto simp: add_spritesheets_def split: if_splits sum.splits)

lemma dict_get_update_same: "dict_get (AList.update k v f) k = v"
  by (simp add: dict_get_def update_conv')

lemma dict_get_update_other: "k' \<noteq> k \<Longrightarrow> dict_get (AList.update k v f) k' = dict_get f k'"
  by (simp add: dict_get_def update_conv')

lemma tag_audio_description_tagged:
  assumes "is_audio_description f"
  shows "dict_get (tag_audio_description h f) ''language_preference'' = JInt (- 10)"
    and "\<exists>rest. dict_get (tag_audio_description h f) ''format_note''
                  = JStr (''audio description'' @ rest)"
    and "dict_get (tag_audio_description h f) ''language'' = dict_get f ''language''"
  using assms
  by (simp_all add: tag_audio_description_def is_audio_description_def Let_def
        dict_get_update_same dict_get_update_other)

lemma tag_audio_description_other:
  "\<not> is_audio_description f \<Longrightarrow> tag_audio_description h f = f"
  by (auto simp add: tag_audio_description_def is_audio_description_def)

lemma language_preference_of_tagged:
  assumes "dict_get f ''language_preference'' = JInt (- 10)"
  shows "language_preference_of f = - 10"
    and "language_preference_of f < default_language_preference"
    and "dict_get g ''language_preference'' = JNull
           \<Longrightarrow> language_preference_of f < language_preference_of g"
  using assms
  by (simp_all add: language_preference_of_def default_language_preference_def)

text \<open>
  Claim C5, as amended. Every resolved format that has an audio track (its
  \<^verbatim>\<open>acodec\<close> is not \<^verbatim>\<open>none\<close>) and whose language is \<^verbatim>\<open>qtz\<close> or \<^verbatim>\<open>qad\<close>
  is returned with \<^verbatim>\<open>language_preference\<close> set to \<open>-10\<close>, which is strictly less
  than the default preference, so strictly less than the preference of every returned
  format that has none of its own, and with a format note that starts with
  \<^verbatim>\<open>audio description\<close>. Every other resolved format, a video-only one with such a
  language included, is returned as it was resolved.
\<close>

theorem audio_description_preference:
  assumes "fst (fetch_metadata h b video_id hostname) = Inr m"
    and "fst (resolve_loop h b resolved_init (videos m)) = st"
    and "fst (extract_video h b video_id catalogue hostname) = Inr info"
  shows "length (formats st) \<le> length (info_formats info)
         \<and> (\<forall>i<length (formats st).
               (is_audio_description (formats st ! i) \<longrightarrow>
                  dict_get (info_formats info ! i) ''language_preference'' = JInt (- 10)
                  \<and> language_preference_of (info_formats info ! i)
                      < default_language_preference
                  \<and> (\<forall>j<length (info_formats info).
                        dict_get (info_formats info ! j) ''language_preference'' = JNull
                        \<longrightarrow> language_preference_of (info_formats info ! i)
                              < language_preference_of (info_formats info ! j))
                  \<and> (\<exists>rest. dict_get (info_formats info ! i) ''format_note''
                               = JStr (''audio description'' @ rest))
                  \<and> dict_get (info_formats info ! i) ''language''
                      = dict_get (formats st ! i) ''language'')
               \<and> (\<not> is_audio_description (formats st ! i) \<longrightarrow>
                    info_formats info ! i = formats st ! i))"
proof -
  from extract_video_InrD [OF assms(3)] assms(1,2)
  obtain fs where sp: "add_spritesheets (map (tag_audio_description h) (formats st))
                         (spritesheets m) = Inr fs"
    and info: "info = assemble h video_id m fs (subtitles st)"
    by auto
  have fmts: "info_formats info = fs"
    by (simp add: info assemble_def)
  have pre: "take (length (formats st)) fs = map (tag_audio_description h) (formats st)"
    using add_spritesheets_prefix [OF sp] by simp
  then have len: "length (formats st) \<le> length fs"
    by (metis length_map length_take min.cobounded2 min_def nat_le_linear)
  have nth: "fs ! i = tag_audio_description h (formats st ! i)"
    if "i < length (formats st)" for i
  proof -
    have "fs ! i = take (length (formats st)) fs ! i"
      using that by simp
    also have "\<dots> = tag_audio_description h (formats st ! i)"
      using that by (simp add: pre)
    finally show ?thesis .
  qed
  have tagged:
    "dict_get (fs ! i) ''language_preference'' = JInt (- 10)
     \<and> language_preference_of (fs ! i) < default_language_preference
     \<and> (\<forall>j<length fs. dict_get (fs ! j) ''language_preference'' = JNull
           \<longrightarrow> language_preference_of (fs ! i) < language_preference_of (fs ! j))
     \<and> (\<exists>rest. dict_get (fs ! i) ''format_note'' = JStr (''audio description'' @ rest))
     \<and> dict_get (fs ! i) ''language'' = dict_get (formats st ! i) ''language''"
    if "i < length (formats st)" and "is_audio_description (formats st ! i)" for i
  proof -
    have pref: "dict_get (fs ! i) ''language_preference'' = JInt (- 10)"
      using tag_audio_description_tagged(1) [OF that(2)] nth [OF that(1)] by simp
    show ?thesis
      using pref language_preference_of_tagged(2,3) [OF pref]
        tag_audio_description_tagged(2,3) [OF that(2), of h] nth [OF that(1)]
      by simp
  qed
  have other: "fs ! i = formats st ! i"
    if "i < length (formats st)" and "\<not> is_audio_description (formats st ! i)" for i
    using tag_audio_description_other [OF that(2)] nth [OF that(1)] by simp
  show ?thesis
    unfolding fmts using len tagged other by blast
qed

theorem audio_description_preference_witness:
  "(case fst (extract_video sample_helpers dash_backend ''vid'' None JNull) of
      Inl e \<Rightarrow> False
    | Inr info \<Rightarrow>
        dict_get (info_formats info ! 1) ''language'' = JStr ''qad''
        \<and> dict_get (info_formats info ! 1) ''language_preference'' = JInt (- 10)
        \<and> dict_get (info_formats info ! 1) ''format_note'' = JStr ''audio description''
        \<and> language_preference_of (info_formats info ! 1)
            < language_preference_of (info_formats info ! 0))"
proof -
  let ?h = sample_helpers and ?b = dash_backend
  let ?v = "[(''url'', JStr ''https://x/manifest.mpd''), (''format'', JStr ''dash'')]"
  let ?m = "fetched_init \<lparr> videos := [?v] \<rparr>"
  let ?f0 = "[(''format_id'', JStr ''dash-video''), (''acodec'', JStr ''none''),
              (''language'', JStr ''qad'')]"
  let ?f1 = "[(''format_id'', JStr ''dash-audio''), (''acodec'', JStr ''mp4a.40.2''),
              (''language'', JStr ''qad'')]"
  let ?st = "\<lparr> formats = [?f0, ?f1], subtitles = [],
               video_url = Some ''https://x/manifest.mpd'' \<rparr>"
  let ?info = "assemble ?h ''vid'' ?m (map (tag_audio_description ?h) [?f0, ?f1]) []"
  have 1: "fst (fetch_metadata ?h ?b ''vid'' JNull) = Inr ?m"
    by (simp add: model_defs dash_backend_def dash_payload_def)
  have 2: "fst (resolve_loop ?h ?b resolved_init (videos ?m)) = ?st"
    by (simp add: model_defs dash_backend_def)
  have 3: "fst (extract_video ?h ?b ''vid'' None JNull) = Inr ?info"
    by (simp add: model_defs dash_backend_def dash_payload_def)
  have 4: "is_audio_description (formats ?st ! 1)"
    by (simp add: is_audio_description_def dict_get_def)
  have 5: "dict_get (info_formats ?info ! 0) ''language_preference'' = JNull"
    by (simp add: model_defs)
  have 6: "length (info_formats ?info) = 2"
    by (simp add: assemble_def)
  from audio_description_preference [OF 1 2 3] 4
  have "dict_get (info_formats ?info ! 1) ''language_preference'' = JInt (- 10)
        \<and> (\<forall>j<length (info_formats ?info).
              dict_get (info_formats ?info ! j) ''language_preference'' = JNull
              \<longrightarrow> language_preference_of (info_formats ?info ! 1)
                    < language_preference_of (info_formats ?info ! j))"
    by simp
  with 5 6 have "dict_get (info_formats ?info ! 1) ''language_preference'' = JInt (- 10)
        \<and> language_preference_of (info_formats ?info ! 1)
            < language_preference_of (info_formats ?info ! 0)"
    by simp
  then show ?thesis
    by (simp add: 3) (simp add: model_defs)
qed

text \<open>
  The claim as stated fails on a video-only format: the first format of this DASH
  manifest has the language \<^verbatim>\<open>qad\<close> and the codec \<^verbatim>\<open>none\<close>, and it is returned
  with no preference and no note.
\<close>

theorem audio_description_video_only_counterexample:
  "(case fst (extract_video sample_helpers dash_backend ''vid'' None JNull) of
      Inl e \<Rightarrow> False
    | Inr info \<Rightarrow>
        dict_get (info_formats info ! 0) ''language'' = JStr ''qad''
        \<and> dict_get (info_formats info ! 0) ''language_preference'' = JNull
        \<and> dict_get (info_formats info ! 0) ''format_note'' = JNull)"
  by (simp add: model_defs dash_backend_def dash_payload_def)

section \<open>Signed URLs\<close>

lemma add_formats_no_token: "ReqTokenJSON t u \<notin> set (snd (add_formats h b st format_id url))"
  by (simp add: add_formats_def split: prod.splits)

text \<open>
  Claim C7. Take a descriptor the loop processes (its URL is a candidate). If it carries
  a token endpoint URL and its workflow is \<^verbatim>\<open>token-akamai\<close>, exactly one token
  request is made, to that endpoint and for the descriptor's URL; when the answer holds
  a valid URL the descriptor is resolved with that signed URL, and when the exchange
  fails or holds no valid URL the descriptor is resolved with its own URL, as a
  descriptor without token is. If it carries no token endpoint, or has another workflow,
  it is resolved with its own URL and no token request is made.
\<close>

theorem token_exchange:
  assumes "candidate_url h video = Some url"
  shows "(\<forall>token_url.
            url_or_none h (dict_get video ''token'') = Some token_url \<and> token_url \<noteq> []
            \<and> dict_get video ''workflow'' = JStr ''token-akamai''
            \<longrightarrow> snd (sign_url h b video url) = [ReqTokenJSON token_url url]
                \<and> (\<forall>signed.
                      tokenized_url h (download_token_json b token_url url) = Some signed
                      \<and> signed \<noteq> []
                      \<longrightarrow> fst (process_video h b st video)
                            = fst (add_formats h b (st\<lparr> video_url := Some signed \<rparr>)
                                     (dict_get video ''format'') signed))
                \<and> (tokenized_url h (download_token_json b token_url url) = None
                     \<or> tokenized_url h (download_token_json b token_url url) = Some []
                     \<longrightarrow> fst (process_video h b st video)
                           = fst (add_formats h b (st\<lparr> video_url := Some url \<rparr>)
                                    (dict_get video ''format'') url)))
         \<and> (url_or_none h (dict_get video ''token'') = None
              \<or> url_or_none h (dict_get video ''token'') = Some []
              \<or> dict_get video ''workflow'' \<noteq> JStr ''token-akamai''
              \<longrightarrow> process_video h b st video
                    = add_formats h b (st\<lparr> video_url := Some url \<rparr>)
                        (dict_get video ''format'') url
                  \<and> (\<forall>t u. ReqTokenJSON t u \<notin> set (snd (process_video h b st video))))"
proof -
  have with_token:
    "snd (sign_url h b video url) = [ReqTokenJSON token_url url]
     \<and> (\<forall>signed. tokenized_url h (download_token_json b token_url url) = Some signed
                  \<and> signed \<noteq> []
          \<longrightarrow> fst (process_video h b st video)
                = fst (add_formats h b (st\<lparr> video_url := Some signed \<rparr>)
                         (dict_get video ''format'') signed))
     \<and> (tokenized_url h (download_token_json b token_url url) = None
          \<or> tokenized_url h (download_token_json b token_url url) = Some []
          \<longrightarrow> fst (process_video h b st video)
                = fst (add_formats h b (st\<lparr> video_url := Some url \<rparr>)
                         (dict_get video ''format'') url))"
    if "url_or_none h (dict_get video ''token'') = Some token_url" "token_url \<noteq> []"
       "dict_get video ''workflow'' = JStr ''token-akamai''" for token_url
    using that assms
    by (auto simp: process_video_def sign_url_def split: prod.splits option.splits)
  have without_token:
    "process_video h b st video
       = add_formats h b (st\<lparr> video_url := Some url \<rparr>) (dict_get video ''format'') url"
    if "url_or_none h (dict_get video ''token'') = None
        \<or> url_or_none h (dict_get video ''token'') = Some []
        \<or> dict_get video ''workflow'' \<noteq> JStr ''token-akamai''"
    using that assms
    by (auto simp: process_video_def sign_url_def split: prod.splits option.splits)
  have no_req: "\<forall>t u. ReqTokenJSON t u \<notin> set (snd (process_video h b st video))"
    if "url_or_none h (dict_get video ''token'') = None
        \<or> url_or_none h (dict_get video ''token'') = Some []
        \<or> dict_get video ''workflow'' \<noteq> JStr ''token-akamai''"
    using without_token [OF that] add_formats_no_token by simp
  show ?thesis
    apply (intro conjI allI impI)
    subgoal for token_url using with_token [of token_url] by blast
    subgoal for token_url signed using with_token [of token_url] by blast
    subgoal for token_url using with_token [of token_url] by blast
    subgoal using without_token by blast
    subgoal for t u using no_req by blast
    done
qed

theorem token_exchange_witness:
  "snd (sign_url sample_helpers token_backend token_video ''https://x/master.m3u8'')
     = [ReqTokenJSON ''https://x/token'' ''https://x/master.m3u8'']
   \<and> formats (fst (process_video sample_helpers token_backend resolved_init token_video))
       = [[(''url'', JStr ''https://cdn/signed.m3u8''), (''format_id'', JStr ''hls'')]]
   \<and> formats (fst (process_video sample_helpers token_failing_backend resolved_init
                      token_video))
       = [[(''url'', JStr ''https://x/master.m3u8''), (''format_id'', JStr ''hls'')]]
   \<and> process_video sample_helpers token_backend resolved_init plain_video
       = (\<lparr> formats = [[(''url'', JStr ''https://x/master.m3u8''),
                          (''format_id'', JStr ''hls'')]],
            subtitles = [], video_url = Some ''https://x/master.m3u8'' \<rparr>,
          [ReqM3U8 ''https://x/master.m3u8'' (JStr ''hls'')])"
proof -
  let ?h = sample_helpers and ?url = "''https://x/master.m3u8''"
  have c1: "candidate_url ?h token_video = Some ?url"
    by (simp add: model_defs token_video_def)
  have c2: "candidate_url ?h plain_video = Some ?url"
    by (simp add: model_defs plain_video_def)
  have tok: "url_or_none ?h (dict_get token_video ''token'') = Some ''https://x/token''
             \<and> ''https://x/token'' \<noteq> []
             \<and> dict_get token_video ''workflow'' = JStr ''token-akamai''"
    by (simp add: model_defs token_video_def)
  have signed: "tokenized_url ?h (download_token_json token_backend ''https://x/token'' ?url)
                  = Some ''https://cdn/signed.m3u8'' \<and> ''https://cdn/signed.m3u8'' \<noteq> []"
    by (simp add: model_defs token_backend_def)
  have failed: "tokenized_url ?h
                  (download_token_json token_failing_backend ''https://x/token'' ?url) = None"
    by (simp add: model_defs token_failing_backend_def token_backend_def)
  have none: "url_or_none ?h (dict_get plain_video ''token'') = None"
    by (simp add: model_defs plain_video_def)
  from token_exchange [OF c1, of token_backend resolved_init] tok signed
  have a: "snd (sign_url ?h token_backend token_video ?url)
             = [ReqTokenJSON ''https://x/token'' ?url]"
    and b: "fst (process_video ?h token_backend resolved_init token_video)
              = fst (add_formats ?h token_backend
                       (resolved_init\<lparr> video_url := Some ''https://cdn/signed.m3u8'' \<rparr>)
                       (dict_get token_video ''format'') ''https://cdn/signed.m3u8'')"
    by blast+
  from token_exchange [OF c1, of token_failing_backend resolved_init] tok failed
  have c: "fst (process_video ?h token_failing_backend resolved_init token_video)
              = fst (add_formats ?h token_failing_backend
                       (resolved_init\<lparr> video_url := Some ?url \<rparr>)
                       (dict_get token_video ''format'') ?url)"
    by blast
  from token_exchange [OF c2, of token_backend resolved_init] none
  have d: "process_video ?h token_backend resolved_init plain_video
             = add_formats ?h token_backend (resolved_init\<lparr> video_url := Some ?url \<rparr>)
                 (dict_get plain_video ''format'') ?url"
    by blast
  show ?thesis
    unfolding a b c d
    by (simp add: model_defs token_backend_def token_failing_backend_def token_video_def
          plain_video_def)
qed

section \<open>Merging the device profiles\<close>

lemma fetch_metadata_two:
  "fetch_metadata h b video_id hostname =
     (case merge_dinfo h fetched_init (download_video_json b video_id ''desktop'' hostname) of
        Inl e \<Rightarrow> (Inl e, [ReqVideoJSON video_id ''desktop'' hostname])
      | Inr s1 \<Rightarrow>
          (case merge_dinfo h s1 (download_video_json b video_id ''mobile'' hostname) of
             Inl e \<Rightarrow> (Inl e, [ReqVideoJSON video_id ''desktop'' hostname,
                                ReqVideoJSON video_id ''mobile'' hostname])
           | Inr s2 \<Rightarrow> (Inr s2, [ReqVideoJSON video_id ''desktop'' hostname,
                                 ReqVideoJSON video_id ''mobile'' hostname])))"
  by (simp add: fetch_metadata_def device_types_def split: sum.splits)

lemma fetch_metadata_InrD:
  assumes "fst (fetch_metadata h b video_id hostname) = Inr m"
  shows "\<exists>s1. merge_dinfo h fetched_init (download_video_json b video_id ''desktop'' hostname)
                 = Inr s1
              \<and> merge_dinfo h s1 (download_video_json b video_id ''mobile'' hostname) = Inr m"
  using assms by (auto simp: fetch_metadata_two split: sum.splits)

lemma merge_video_videos:
  "videos (merge_video st dinfo)
     = videos st @ (case traverse_dict dinfo ''video'' of
                      None \<Rightarrow> []
                    | Some video \<Rightarrow> if video = [] then [] else [video])"
  by (simp add: merge_video_def split: option.splits)

lemma merge_meta_videos:
  assumes "merge_meta h st dinfo = Inr st'"
  shows "videos st' = videos st"
proof (cases "traverse_dict dinfo ''meta''")
  case None
  with assms show ?thesis by (simp add: merge_meta_def)
next
  case (Some meta)
  show ?thesis
  proof (cases "meta = []")
    case True
    with assms Some show ?thesis by (simp add: merge_meta_def)
  next
    case False
    with assms Some obtain sn en where
      "search_episode_info h (dict_get meta ''pre_title'') = Inr (sn, en)"
      by (cases "search_episode_info h (dict_get meta ''pre_title'')") (auto simp: merge_meta_def)
    with assms Some False show ?thesis
      by (auto simp: merge_meta_def)
  qed
qed

lemma merge_dinfo_videos:
  assumes "merge_dinfo h st dinfo = Inr st'"
  shows "videos st' = videos st @ response_descriptors dinfo"
proof (cases "truthy dinfo")
  case False
  with assms show ?thesis
    by (simp add: merge_dinfo_def response_descriptors_def)
next
  case True
  with assms have "merge_meta h (merge_video st dinfo) dinfo = Inr st'"
    by (simp add: merge_dinfo_def)
  from merge_meta_videos [OF this] True show ?thesis
    by (simp add: merge_video_videos response_descriptors_def)
qed

lemma response_descriptors_le: "length (response_descriptors dinfo) \<le> 1"
  by (simp add: response_descriptors_def split: option.splits)

text \<open>
  Claim C2, as amended. Each profile response contributes at most one raw descriptor,
  its \<^verbatim>\<open>video\<close> object when that is a dictionary that is not empty. The list handed
  to the format loop is the contribution of the desktop response followed by that of the
  mobile response, nothing removed: its length is the sum of the two, so at most 2.
\<close>

theorem raw_descriptors_concatenated:
  assumes "fst (fetch_metadata h b video_id hostname) = Inr m"
  shows "videos m = response_descriptors (download_video_json b video_id ''desktop'' hostname)
                      @ response_descriptors (download_video_json b video_id ''mobile'' hostname)
         \<and> length (videos m)
             = length (response_descriptors (download_video_json b video_id ''desktop'' hostname))
               + length (response_descriptors (download_video_json b video_id ''mobile'' hostname))
         \<and> length (response_descriptors (download_video_json b video_id ''desktop'' hostname)) \<le> 1
         \<and> length (response_descriptors (download_video_json b video_id ''mobile'' hostname)) \<le> 1"
proof -
  from fetch_metadata_InrD [OF assms] obtain s1 where
    a: "merge_dinfo h fetched_init (download_video_json b video_id ''desktop'' hostname) = Inr s1"
    and b: "merge_dinfo h s1 (download_video_json b video_id ''mobile'' hostname) = Inr m"
    by blast
  have "videos m = response_descriptors (download_video_json b video_id ''desktop'' hostname)
                      @ response_descriptors (download_video_json b video_id ''mobile'' hostname)"
    using merge_dinfo_videos [OF a] merge_dinfo_videos [OF b] by (simp add: fetched_init_def)
  then show ?thesis
    using response_descriptors_le by simp
qed

theorem raw_descriptors_concatenated_witness:
  "(case fst (fetch_metadata sample_helpers (sample_backend single_payload single_payload)
               ''vid'' JNull) of
      Inl e \<Rightarrow> False
    | Inr m \<Rightarrow> videos m = [[(''url'', JStr ''https://x/c.m3u8'')],
                            [(''url'', JStr ''https://x/c.m3u8'')]])"
proof -
  let ?h = sample_helpers and ?b = "sample_backend single_payload single_payload"
  let ?v = "[(''url'', JStr ''https://x/c.m3u8'')]"
  let ?m = "fetched_init \<lparr> videos := [?v, ?v] \<rparr>"
  have 1: "fst (fetch_metadata ?h ?b ''vid'' JNull) = Inr ?m"
    by (simp add: model_defs single_payload_def)
  have "videos ?m = response_descriptors (download_video_json ?b ''vid'' ''desktop'' JNull)
                      @ response_descriptors (download_video_json ?b ''vid'' ''mobile'' JNull)"
    using raw_descriptors_concatenated [OF 1] by blast
  then show ?thesis
    by (simp add: 1 fetched_init_def)
qed

text \<open>
  The claim as stated fails on a response with two descriptors: the desktop response
  carries an array of two descriptors, the mobile response a single one, and one raw
  descriptor reaches the format loop, not three.
\<close>

theorem raw_descriptors_array_counterexample:
  "spec_descriptor_count array_payload = 2
   \<and> spec_descriptor_count single_payload = 1
   \<and> (case fst (fetch_metadata sample_helpers (sample_backend array_payload single_payload)
                   ''vid'' JNull) of
         Inl e \<Rightarrow> False
       | Inr m \<Rightarrow> videos m = [[(''url'', JStr ''https://x/c.m3u8'')]]
                  \<and> length (videos m) \<noteq> 2 + 1)"
  by (simp add: model_defs spec_descriptor_count_def array_payload_def single_payload_def)

text \<open>
  Claim C1 at a concrete input. The desktop response has the pre-title \<^verbatim>\<open>S1 E3\<close>,
  the mobile response has a \<^verbatim>\<open>meta\<close> object without pre-title. Line 131 assigns
  both numbers on every response with a \<^verbatim>\<open>meta\<close> object, with no test for
  \<^verbatim>\<open>None\<close>, so the numbers of the desktop response are lost, while title and
  subtitle keep the desktop values.
\<close>

theorem episode_numbers_overwritten:
  "pre_title_match sample_helpers episode_payload = Some ([49], [51])
   \<and> pre_title_match sample_helpers plain_payload = None
   \<and> (case fst (fetch_metadata sample_helpers (sample_backend episode_payload plain_payload)
                   ''vid'' JNull) of
         Inl e \<Rightarrow> False
       | Inr m \<Rightarrow> episode_number m = None \<and> season_number m = None
                  \<and> title m = JStr ''Foot2Rue''
                  \<and> subtitle m = JStr ''Duel au vieux port'')
   \<and> (case fst (extract_video sample_helpers (sample_backend episode_payload plain_payload)
                   ''vid'' None JNull) of
         Inl e \<Rightarrow> False
       | Inr info \<Rightarrow> info_episode_number info = None \<and> info_season_number info = None
                     \<and> info_episode info = JNull \<and> info_series info = JNull)"
  by (simp add: model_defs pre_title_match_def episode_payload_def plain_payload_def)

section \<open>Merged fields\<close>

lemma first_non_null_alt: "(if a = JNull then b else a) = first_non_null a b"
  by (simp add: first_non_null_def)

lemma merge_video_eq:
  "merge_video st dinfo =
     (if traverse_dict dinfo ''video'' = None \<or> traverse_dict dinfo ''video'' = Some [] then st
      else st\<lparr> videos := videos st @ [the (traverse_dict dinfo ''video'')],
               duration := first_non_null (duration st)
                             (dict_get (the (traverse_dict dinfo ''video'')) ''duration''),
               is_live := first_non_null (is_live st)
                            (dict_get (the (traverse_dict dinfo ''video'')) ''is_live''),
               spritesheets := first_non_null (spritesheets st)
                                 (dict_get (the (traverse_dict dinfo ''video'')) ''spritesheets'') \<rparr>)"
  by (simp add: merge_video_def first_non_null_def split: option.splits)

lemma search_episode_info_Inr:
  assumes "search_episode_info h v = Inr (sn, en)"
  shows "sn = map_option fst (case v of JStr s \<Rightarrow> search_episode h (utf8_decode s) | _ \<Rightarrow> None)
         \<and> en = map_option snd (case v of JStr s \<Rightarrow> search_episode h (utf8_decode s) | _ \<Rightarrow> None)"
  using assms
  by (cases v) (auto simp: search_episode_info_def split: option.splits)

lemma merge_meta_eq:
  assumes "merge_meta h st dinfo = Inr st'"
  shows "st' =
     (if traverse_dict dinfo ''meta'' = None \<or> traverse_dict dinfo ''meta'' = Some [] then st
      else st\<lparr> title := first_non_null (title st)
                            (dict_get (the (traverse_dict dinfo ''meta'')) ''title''),
               season_number :=
                 map_option fst
                   (case dict_get (the (traverse_dict dinfo ''meta'')) ''pre_title'' of
                      JStr s \<Rightarrow> search_episode h (utf8_decode s) | _ \<Rightarrow> None),
               episode_number :=
                 map_option snd
                   (case dict_get (the (traverse_dict dinfo ''meta'')) ''pre_title'' of
                      JStr s \<Rightarrow> search_episode h (utf8_decode s) | _ \<Rightarrow> None),
               subtitle := first_non_null (subtitle st)
                             (dict_get (the (traverse_dict dinfo ''meta'')) ''additional_title''),
               image_val := first_non_null (image_val st)
                              (dict_get (the (traverse_dict dinfo ''meta'')) ''image_url''),
               timestamp := (if timestamp st = None
                             then parse_iso8601 h
                                    (dict_get (the (traverse_dict dinfo ''meta'')) ''broadcasted_at'')
                             else timestamp st) \<rparr>)"
proof (cases "traverse_dict dinfo ''meta''")
  case None
  with assms show ?thesis by (simp add: merge_meta_def)
next
  case (Some meta)
  show ?thesis
  proof (cases "meta = []")
    case True
    with assms Some show ?thesis by (simp add: merge_meta_def)
  next
    case False
    with assms Some obtain sn en where
      se: "search_episode_info h (dict_get meta ''pre_title'') = Inr (sn, en)"
      by (cases "search_episode_info h (dict_get meta ''pre_title'')") (auto simp: merge_meta_def)
    from Some False se have "merge_meta h st dinfo = Inr (st\<lparr> title := first_non_null (title st) (dict_get meta ''title''),
               season_number := sn, episode_number := en,
               subtitle := first_non_null (subtitle st) (dict_get meta ''additional_title''),
               image_val := first_non_null (image_val st) (dict_get meta ''image_url''),
               timestamp := (if timestamp st = None
                             then parse_iso8601 h (dict_get meta ''broadcasted_at'')
                             else timestamp st) \<rparr>)"
      by (simp add: merge_meta_def first_non_null_alt split del: if_split)
    with assms have "st' = st\<lparr> title := first_non_null (title st) (dict_get meta ''title''),
               season_number := sn, episode_number := en,
               subtitle := first_non_null (subtitle st) (dict_get meta ''additional_title''),
               image_val := first_non_null (image_val st) (dict_get meta ''image_url''),
               timestamp := (if timestamp st = None
                             then parse_iso8601 h (dict_get meta ''broadcasted_at'')
                             else timestamp st) \<rparr>"
      by (simp split del: if_split)
    with search_episode_info_Inr [OF se] Some False show ?thesis
      by (simp cong: if_cong split del: if_split)
  qed
qed


lemma first_non_null_JNull [simp]: "first_non_null a JNull = a"
  by (simp add: first_non_null_def)

lemma dict_get_Nil [simp]: "dict_get [] k = JNull"
  by (simp add: dict_get_def)

lemma merge_video_fields:
  "duration (merge_video st dinfo)
     = first_non_null (duration st) (dict_get (response_video dinfo) ''duration'')
       \<or> \<not> truthy dinfo"
  "is_live (merge_video st dinfo)
     = first_non_null (is_live st) (dict_get (response_video dinfo) ''is_live'')
       \<or> \<not> truthy dinfo"
  "spritesheets (merge_video st dinfo)
     = first_non_null (spritesheets st) (dict_get (response_video dinfo) ''spritesheets'')
       \<or> \<not> truthy dinfo"
  "title (merge_video st dinfo) = title st"
  "subtitle (merge_video st dinfo) = subtitle st"
  "image_val (merge_video st dinfo) = image_val st"
  "timestamp (merge_video st dinfo) = timestamp st"
  "season_number (merge_video st dinfo) = season_number st"
  "episode_number (merge_video st dinfo) = episode_number st"
  by (auto simp: merge_video_eq response_video_def)

lemma merge_meta_fields:
  assumes "merge_meta h st dinfo = Inr st'" and "truthy dinfo"
  shows "title st' = first_non_null (title st) (dict_get (response_meta dinfo) ''title'')"
    and "subtitle st'
           = first_non_null (subtitle st) (dict_get (response_meta dinfo) ''additional_title'')"
    and "image_val st'
           = first_non_null (image_val st) (dict_get (response_meta dinfo) ''image_url'')"
    and "timestamp st'
           = (if timestamp st = None then response_timestamp h dinfo else timestamp st)"
    and "season_number st'
           = (if has_meta dinfo then map_option fst (pre_title_match h dinfo)
              else season_number st)"
    and "episode_number st'
           = (if has_meta dinfo then map_option snd (pre_title_match h dinfo)
              else episode_number st)"
    and "duration st' = duration st"
    and "is_live st' = is_live st"
    and "spritesheets st' = spritesheets st"
  unfolding merge_meta_eq [OF assms(1)]
  using assms(2)
  by (auto simp: response_meta_def response_timestamp_def has_meta_def pre_title_match_def)

lemma merge_dinfo_fields:
  assumes "merge_dinfo h st dinfo = Inr st'"
  shows "title st' = first_non_null (title st) (dict_get (response_meta dinfo) ''title'')
    \<and> subtitle st'
           = first_non_null (subtitle st) (dict_get (response_meta dinfo) ''additional_title'')
    \<and> image_val st'
           = first_non_null (image_val st) (dict_get (response_meta dinfo) ''image_url'')
    \<and> timestamp st'
           = (if timestamp st = None then response_timestamp h dinfo else timestamp st)
    \<and> season_number st'
           = (if has_meta dinfo then map_option fst (pre_title_match h dinfo)
              else season_number st)
    \<and> episode_number st'
           = (if has_meta dinfo then map_option snd (pre_title_match h dinfo)
              else episode_number st)
    \<and> duration st'
           = first_non_null (duration st) (dict_get (response_video dinfo) ''duration'')
    \<and> is_live st'
           = first_non_null (is_live st) (dict_get (response_video dinfo) ''is_live'')
    \<and> spritesheets st'
           = first_non_null (spritesheets st) (dict_get (response_video dinfo) ''spritesheets'')"
proof (cases "truthy dinfo")
  case False
  with assms have "st' = st"
    by (simp add: merge_dinfo_def)
  with False show ?thesis
    by (simp add: response_meta_def response_video_def response_timestamp_def has_meta_def)
next
  case True
  with assms have mm: "merge_meta h (merge_video st dinfo) dinfo = Inr st'"
    by (simp add: merge_dinfo_def)
  show ?thesis
    using merge_meta_fields [OF mm True] merge_video_fields [of st dinfo] True
    by (simp cong: if_cong split del: if_split)
qed

lemma first_non_null_assoc:
  "first_non_null (first_non_null JNull a) b = first_non_null a b"
  by (simp add: first_non_null_def)

text \<open>
  The merged value of each of the seven fields that lines 119 to 138 assign under an
  \<^verbatim>\<open>is None\<close> test is the first value that is not \<^verbatim>\<open>None\<close>, desktop before
  mobile.
\<close>

lemma guarded_fields_first_non_null:
  assumes "fst (fetch_metadata h b video_id hostname) = Inr m"
    and "desktop = download_video_json b video_id ''desktop'' hostname"
    and "mobile = download_video_json b video_id ''mobile'' hostname"
  shows "title m = first_non_null (dict_get (response_meta desktop) ''title'')
                     (dict_get (response_meta mobile) ''title'')
    \<and> subtitle m = first_non_null (dict_get (response_meta desktop) ''additional_title'')
                      (dict_get (response_meta mobile) ''additional_title'')
    \<and> image_val m = first_non_null (dict_get (response_meta desktop) ''image_url'')
                       (dict_get (response_meta mobile) ''image_url'')
    \<and> timestamp m = (case response_timestamp h desktop of
                       Some t \<Rightarrow> Some t
                     | None \<Rightarrow> response_timestamp h mobile)
    \<and> duration m = first_non_null (dict_get (response_video desktop) ''duration'')
                      (dict_get (response_video mobile) ''duration'')
    \<and> is_live m = first_non_null (dict_get (response_video desktop) ''is_live'')
                     (dict_get (response_video mobile) ''is_live'')
    \<and> spritesheets m = first_non_null (dict_get (response_video desktop) ''spritesheets'')
                          (dict_get (response_video mobile) ''spritesheets'')"
proof -
  from fetch_metadata_InrD [OF assms(1)] assms(2,3) obtain s1 where
    a: "merge_dinfo h fetched_init desktop = Inr s1"
    and b: "merge_dinfo h s1 mobile = Inr m"
    by blast
  have init: "title fetched_init = JNull" "subtitle fetched_init = JNull"
    "image_val fetched_init = JNull" "timestamp fetched_init = None"
    "duration fetched_init = JNull" "is_live fetched_init = JNull"
    "spritesheets fetched_init = JNull"
    by (simp_all add: fetched_init_def)
  show ?thesis
    using merge_dinfo_fields [OF a] merge_dinfo_fields [OF b]
    by (simp add: init first_non_null_assoc split: option.splits)
qed

text \<open>
  The season and episode numbers are assigned without such a test: the last response
  that has a \<^verbatim>\<open>meta\<close> object decides both.
\<close>

lemma merged_episode_numbers:
  assumes "fst (fetch_metadata h b video_id hostname) = Inr m"
    and "desktop = download_video_json b video_id ''desktop'' hostname"
    and "mobile = download_video_json b video_id ''mobile'' hostname"
  shows "season_number m
           = map_option fst (if has_meta mobile then pre_title_match h mobile
                             else if has_meta desktop then pre_title_match h desktop else None)
    \<and> episode_number m
           = map_option snd (if has_meta mobile then pre_title_match h mobile
                             else if has_meta desktop then pre_title_match h desktop else None)"
proof -
  from fetch_metadata_InrD [OF assms(1)] assms(2,3) obtain s1 where
    a: "merge_dinfo h fetched_init desktop = Inr s1"
    and b: "merge_dinfo h s1 mobile = Inr m"
    by blast
  have init: "season_number fetched_init = None" "episode_number fetched_init = None"
    by (simp_all add: fetched_init_def)
  show ?thesis
    using merge_dinfo_fields [OF a] merge_dinfo_fields [OF b]
    by (simp add: init)
qed

lemma match_episode_at_digits:
  assumes "match_episode_at h s = Some (sn, en)"
  shows "sn \<noteq> [] \<and> list_all (is_digit h) sn \<and> en \<noteq> [] \<and> list_all (is_digit h) en"
proof -
  have tw: "list_all (is_digit h) (takeWhile (is_digit h) r)" for r
    by (induction r) simp_all
  from assms show ?thesis
    using tw by (auto simp: match_episode_at_def split: list.splits if_splits)
qed

lemma search_episode_digits:
  "search_episode h s = Some (sn, en) \<Longrightarrow>
     sn \<noteq> [] \<and> list_all (is_digit h) sn \<and> en \<noteq> [] \<and> list_all (is_digit h) en"
proof (induction s)
  case Nil
  then show ?case using match_episode_at_digits [of h "[]"] by simp
next
  case (Cons c cs)
  then show ?case
    using match_episode_at_digits [of h "c # cs"]
    by (cases "match_episode_at h (c # cs)") auto
qed

lemma pre_title_match_digits:
  assumes "pre_title_match h dinfo = Some (sn, en)"
  shows "sn \<noteq> [] \<and> list_all (is_digit h) sn \<and> en \<noteq> [] \<and> list_all (is_digit h) en"
  using assms search_episode_digits
  by (auto simp: pre_title_match_def split: if_splits option.splits json.splits)

lemma int_or_none_digits:
  "s \<noteq> [] \<Longrightarrow> list_all (is_digit h) s \<Longrightarrow> int_or_none h (Some s) \<noteq> None"
  by (simp add: int_or_none_def)

section \<open>The episode pattern\<close>

lemma E_not_digit: "\<not> is_digit h 69"
  by (simp add: is_digit_def)

lemma E_not_space: "\<not> is_space 69"
  by (simp add: is_space_def)

lemma list_all_takeWhile: "list_all P (takeWhile P xs)"
  by (induction xs) simp_all

lemma takeWhile_run:
  "list_all P xs \<Longrightarrow> takeWhile P (xs @ ys) = xs @ takeWhile P ys"
  by (induction xs) simp_all

lemma dropWhile_run:
  "list_all P xs \<Longrightarrow> dropWhile P (xs @ ys) = dropWhile P ys"
  by (induction xs) simp_all

lemma dropWhile_stop:
  "\<not> P y \<Longrightarrow> \<exists>zs. dropWhile P (xs @ y # ys) = zs @ y # ys \<and> (\<exists>ps. xs = ps @ zs)"
proof (induction xs)
  case Nil
  then show ?case by simp
next
  case (Cons x xs)
  then obtain zs ps where "dropWhile P (xs @ y # ys) = zs @ y # ys" "xs = ps @ zs"
    by blast
  then show ?case
    by (cases "P x") (auto intro: exI [of _ "x # ps"] exI [of _ "[]"])
qed

lemma match_episode_at_sound:
  assumes "match_episode_at h s = Some (sn, en)"
  shows "\<exists>ws post. episode_parse h s [] sn ws en post"
proof -
  from assms obtain r where s: "s = 83 # r" and sn: "sn = takeWhile (is_digit h) r"
    and sn_ne: "takeWhile (is_digit h) r \<noteq> []"
    by (auto simp: match_episode_at_def split: list.splits if_splits)
  from assms s sn_ne obtain r2 where
    rest: "dropWhile is_space (dropWhile (is_digit h) r) = 69 # r2"
    and en: "en = takeWhile (is_digit h) r2" and en_ne: "takeWhile (is_digit h) r2 \<noteq> []"
    by (auto simp: match_episode_at_def split: list.splits if_splits)
  let ?ws = "takeWhile is_space (dropWhile (is_digit h) r)"
  have "r = sn @ dropWhile (is_digit h) r"
    by (simp add: sn)
  also have "dropWhile (is_digit h) r = ?ws @ 69 # r2"
    using takeWhile_dropWhile_id [of is_space "dropWhile (is_digit h) r"] rest by simp
  also have "r2 = en @ dropWhile (is_digit h) r2"
    by (simp add: en)
  finally have "s = [] @ [83] @ sn @ ?ws @ [69] @ en @ dropWhile (is_digit h) r2"
    by (simp add: s)
  then have "episode_parse h s [] sn ?ws en (dropWhile (is_digit h) r2)"
    unfolding episode_parse_def
    using sn sn_ne en en_ne by (simp add: list_all_takeWhile)
  then show ?thesis by blast
qed

lemma match_episode_at_complete:
  assumes "episode_parse h s [] sn ws en post"
  shows "\<exists>sn' en'. match_episode_at h s = Some (sn', en')
           \<and> length sn \<le> length sn' \<and> length en \<le> length en'"
proof -
  from assms have s: "s = 83 # sn @ ws @ 69 # en @ post"
    and sn: "sn \<noteq> []" "list_all (is_digit h) sn" and ws: "list_all is_space ws"
    and en: "en \<noteq> []" "list_all (is_digit h) en"
    by (simp_all add: episode_parse_def)
  let ?r = "sn @ ws @ 69 # en @ post"
  have tw: "takeWhile (is_digit h) ?r = sn @ takeWhile (is_digit h) (ws @ 69 # en @ post)"
    using sn(2) by (rule takeWhile_run)
  have "dropWhile (is_digit h) ?r = dropWhile (is_digit h) (ws @ 69 # en @ post)"
    using sn(2) by (rule dropWhile_run)
  moreover obtain zs ps where zs: "dropWhile (is_digit h) (ws @ 69 # en @ post) = zs @ 69 # en @ post"
    and ps: "ws = ps @ zs"
    using dropWhile_stop [of "is_digit h" 69 ws "en @ post"] E_not_digit by blast
  ultimately have dw: "dropWhile (is_digit h) ?r = zs @ 69 # en @ post"
    by simp
  have "list_all is_space zs"
    using ws ps by simp
  then have ds: "dropWhile is_space (zs @ 69 # en @ post) = 69 # en @ post"
    using E_not_space by (simp add: dropWhile_run)
  have te: "takeWhile (is_digit h) (en @ post) = en @ takeWhile (is_digit h) post"
    using en(2) by (rule takeWhile_run)
  have "match_episode_at h s
          = Some (sn @ takeWhile (is_digit h) (ws @ 69 # en @ post),
                  en @ takeWhile (is_digit h) post)"
    using sn(1) en(1) by (simp add: match_episode_at_def s tw dw ds te)
  then show ?thesis by simp
qed

lemma episode_parse_shift:
  "episode_parse h (pre @ t) pre sn ws en post \<longleftrightarrow> episode_parse h t [] sn ws en post"
  by (simp add: episode_parse_def)

lemma episode_parse_prefix:
  assumes "episode_parse h s pre sn ws en post"
  shows "\<exists>t. s = pre @ t \<and> episode_parse h t [] sn ws en post"
  using assms by (auto simp: episode_parse_def)

lemma search_episode_None:
  "search_episode h s = None \<Longrightarrow> s = pre @ t \<Longrightarrow> match_episode_at h t = None"
proof (induction s arbitrary: pre)
  case Nil
  then show ?case by simp
next
  case (Cons c cs)
  from Cons.prems(1) have here: "match_episode_at h (c # cs) = None"
    and later: "search_episode h cs = None"
    by (auto split: option.splits)
  show ?case
  proof (cases pre)
    case Nil
    with Cons.prems(2) here show ?thesis by simp
  next
    case (Cons p ps)
    with Cons.prems(2) have "cs = ps @ t" by simp
    from Cons.IH [OF later this] show ?thesis .
  qed
qed

lemma search_episode_Some:
  "search_episode h s = Some m \<Longrightarrow>
     \<exists>pre t. s = pre @ t \<and> match_episode_at h t = Some m
       \<and> (\<forall>pre' t'. s = pre' @ t' \<and> length pre' < length pre
            \<longrightarrow> match_episode_at h t' = None)"
proof (induction s)
  case Nil
  then show ?case by (simp add: match_episode_at_def)
next
  case (Cons c cs)
  show ?case
  proof (cases "match_episode_at h (c # cs)")
    case (Some m')
    with Cons.prems have "m' = m" by simp
    with Some have "c # cs = [] @ (c # cs) \<and> match_episode_at h (c # cs) = Some m
       \<and> (\<forall>pre' t'. c # cs = pre' @ t' \<and> length pre' < length ([] :: nat list)
            \<longrightarrow> match_episode_at h t' = None)"
      by simp
    then show ?thesis by blast
  next
    case None
    with Cons.prems have "search_episode h cs = Some m" by simp
    from Cons.IH [OF this] obtain pre t where cs: "cs = pre @ t"
      and m: "match_episode_at h t = Some m"
      and left: "\<forall>pre' t'. cs = pre' @ t' \<and> length pre' < length pre
                   \<longrightarrow> match_episode_at h t' = None"
      by blast
    have "\<forall>pre' t'. c # cs = pre' @ t' \<and> length pre' < length (c # pre)
            \<longrightarrow> match_episode_at h t' = None"
    proof (intro allI impI)
      fix pre' t'
      assume a: "c # cs = pre' @ t' \<and> length pre' < length (c # pre)"
      show "match_episode_at h t' = None"
      proof (cases pre')
        case Nil
        with a None show ?thesis by simp
      next
        case (Cons p ps)
        with a have "cs = ps @ t' \<and> length ps < length pre" by simp
        with left show ?thesis by blast
      qed
    qed
    with cs m have "c # cs = (c # pre) @ t \<and> match_episode_at h t = Some m
       \<and> (\<forall>pre' t'. c # cs = pre' @ t' \<and> length pre' < length (c # pre)
            \<longrightarrow> match_episode_at h t' = None)"
      by simp
    then show ?thesis by blast
  qed
qed

text \<open>
  The search of line 132 against the pattern as a statement on the text: it finds
  nothing exactly when the text cannot be cut into \<^verbatim>\<open>S\<close>, digits, whitespace,
  \<^verbatim>\<open>E\<close>, digits at any place; and what it finds are the two runs of digits of such
  a cut, at the leftmost place that has one, each the longest possible there.
\<close>

lemma search_episode_no_parse:
  "search_episode h s = None \<longleftrightarrow> (\<forall>pre sn ws en post. \<not> episode_parse h s pre sn ws en post)"
proof
  assume none: "search_episode h s = None"
  show "\<forall>pre sn ws en post. \<not> episode_parse h s pre sn ws en post"
  proof (intro allI notI)
    fix pre sn ws en post
    assume "episode_parse h s pre sn ws en post"
    from episode_parse_prefix [OF this] obtain t where
      "s = pre @ t" "episode_parse h t [] sn ws en post"
      by blast
    with search_episode_None [OF none] match_episode_at_complete show False
      by fastforce
  qed
next
  assume no: "\<forall>pre sn ws en post. \<not> episode_parse h s pre sn ws en post"
  show "search_episode h s = None"
  proof (rule ccontr)
    assume "search_episode h s \<noteq> None"
    then obtain sn en where "search_episode h s = Some (sn, en)"
      by (cases "search_episode h s") auto
    from search_episode_Some [OF this] obtain pre t where
      "s = pre @ t" "match_episode_at h t = Some (sn, en)"
      by blast
    with match_episode_at_sound [of h t sn en] obtain ws post where
      "episode_parse h s pre sn ws en post"
      by (auto simp: episode_parse_shift)
    with no show False by blast
  qed
qed

lemma search_episode_leftmost_longest:
  assumes "search_episode h s = Some (sn, en)"
  shows "\<exists>pre ws post.
           episode_parse h s pre sn ws en post
           \<and> (\<forall>pre' sn' ws' en' post'.
                 episode_parse h s pre' sn' ws' en' post'
                 \<longrightarrow> length pre \<le> length pre'
                     \<and> (length pre' = length pre
                          \<longrightarrow> length sn' \<le> length sn \<and> length en' \<le> length en))"
proof -
  from search_episode_Some [OF assms] obtain pre t where s: "s = pre @ t"
    and m: "match_episode_at h t = Some (sn, en)"
    and left: "\<forall>pre' t'. s = pre' @ t' \<and> length pre' < length pre
                 \<longrightarrow> match_episode_at h t' = None"
    by blast
  from match_episode_at_sound [OF m] obtain ws post where
    parse: "episode_parse h s pre sn ws en post"
    by (auto simp: s episode_parse_shift)
  have "length pre \<le> length pre'
        \<and> (length pre' = length pre \<longrightarrow> length sn' \<le> length sn \<and> length en' \<le> length en)"
    if other: "episode_parse h s pre' sn' ws' en' post'" for pre' sn' ws' en' post'
  proof -
    from episode_parse_prefix [OF other] obtain t' where s': "s = pre' @ t'"
      and p': "episode_parse h t' [] sn' ws' en' post'"
      by blast
    from match_episode_at_complete [OF p'] obtain sn'' en'' where
      m': "match_episode_at h t' = Some (sn'', en'')"
      and len: "length sn' \<le> length sn''" "length en' \<le> length en''"
      by blast
    have first: "length pre \<le> length pre'"
    proof (rule ccontr)
      assume "\<not> length pre \<le> length pre'"
      then have "s = pre' @ t' \<and> length pre' < length pre"
        using s' by simp
      with left have "match_episode_at h t' = None" by blast
      with m' show False by simp
    qed
    have "length sn' \<le> length sn \<and> length en' \<le> length en" if "length pre' = length pre"
    proof -
      from that s s' have "t' = t" by (metis append_eq_append_conv)
      with m m' len show ?thesis by simp
    qed
    with first show ?thesis by blast
  qed
  with parse show ?thesis by blast
qed

lemma pre_title_match_parse:
  assumes "pre_title_match h dinfo = Some (sn, en)"
  shows "\<exists>s pre ws post.
           has_meta dinfo \<and> dict_get (response_meta dinfo) ''pre_title'' = JStr s
           \<and> episode_parse h (utf8_decode s) pre sn ws en post"
proof -
  from assms obtain meta s where t: "truthy dinfo"
    and meta: "traverse_dict dinfo ''meta'' = Some meta" "meta \<noteq> []"
    and s: "dict_get meta ''pre_title'' = JStr s"
    and m: "search_episode h (utf8_decode s) = Some (sn, en)"
    by (auto simp: pre_title_match_def split: if_splits option.splits json.splits)
  from search_episode_leftmost_longest [OF m] obtain pre ws post where
    "episode_parse h (utf8_decode s) pre sn ws en post"
    by blast
  with t meta s show ?thesis
    by (auto simp: has_meta_def response_meta_def)
qed

lemma pre_title_match_none:
  assumes "has_meta dinfo" and "dict_get (response_meta dinfo) ''pre_title'' = JStr s"
  shows "pre_title_match h dinfo = None
           \<longleftrightarrow> (\<forall>pre sn ws en post. \<not> episode_parse h (utf8_decode s) pre sn ws en post)"
proof -
  from assms have "pre_title_match h dinfo = search_episode h (utf8_decode s)"
    by (auto simp: pre_title_match_def has_meta_def response_meta_def split: option.splits)
  then show ?thesis
    by (simp add: search_episode_no_parse)
qed

text \<open>
  The pattern on sample texts: \<^verbatim>\<open>S1 E3\<close> written with a blank and with a no-break
  space, a text without marker, a marker after another \<^verbatim>\<open>S\<close> with a tab and a
  blank, Arabic-Indic digits, and a text that lacks the \<^verbatim>\<open>E\<close>.
\<close>

lemma utf8_decode_examples:
  "utf8_decode ''S1 E3'' = [83, 49, 32, 69, 51]"
  "utf8_decode [CHR 0xC3, CHR 0xA9] = [233]"
  "utf8_decode [CHR 0xE2, CHR 0x82, CHR 0xAC] = [8364]"
  "utf8_decode [CHR 0xF0, CHR 0x9F, CHR 0x98, CHR 0x80] = [128512]"
  "utf8_chars (''a'' @ [CHR 0xC3, CHR 0xA9, CHR 0xE2, CHR 0x82, CHR 0xAC])
     = [''a'', [CHR 0xC3, CHR 0xA9], [CHR 0xE2, CHR 0x82, CHR 0xAC]]"
  by simp_all

lemma episode_pattern_examples:
  "pre_title_match sample_helpers episode_payload = Some ([49], [51])"
  "utf8_decode (''S1'' @ [CHR 0xC2, CHR 0xA0] @ ''E3'') = [83, 49, 160, 69, 51]"
  "pre_title_match sample_helpers nbsp_payload = Some ([49], [51])"
  "pre_title_match sample_helpers bonus_payload = None"
  "search_episode sample_helpers [83, 83, 49, 50, 9, 32, 69, 48, 55, 97] = Some ([49, 50], [48, 55])"
  "search_episode sample_helpers [83, 1633, 1634, 69, 55] = Some ([1633, 1634], [55])"
  "int_or_none sample_helpers (Some [1633, 1634]) = Some 12"
  "search_episode sample_helpers [83, 49, 32, 51] = None"
  by (simp_all add: pre_title_match_def traverse_dict_def dict_get_def episode_payload_def
        nbsp_payload_def bonus_payload_def match_episode_at_def is_digit_def is_space_def
        int_or_none_def digit_val_def sample_helpers_def)

section \<open>Episode attribution\<close>

text \<open>
  What holds of the four fields in every returned manifest. The episode number is
  present exactly when the season number is, so a season number never stands alone.
  When the episode number is absent, episode and series are absent too. When it is
  present, the pre-title of one of the two responses matched the pattern and the two
  numbers are the decimal values of its two groups, the episode is the merged subtitle
  and the series the merged title. When the pre-title of no response matches, all four
  fields are absent.
\<close>

lemma episode_attribution:
  assumes "fst (fetch_metadata h b video_id hostname) = Inr m"
    and "fst (extract_video h b video_id catalogue hostname) = Inr info"
  shows "(info_episode_number info = None \<longleftrightarrow> info_season_number info = None)
         \<and> (info_episode_number info = None
              \<longrightarrow> info_episode info = JNull \<and> info_series info = JNull)
         \<and> (info_episode_number info \<noteq> None
              \<longrightarrow> info_episode info = subtitle m \<and> info_series info = title m
                  \<and> (\<exists>device_type\<in>set device_types. \<exists>sn en.
                        pre_title_match h (download_video_json b video_id device_type hostname)
                          = Some (sn, en)
                        \<and> info_season_number info = int_or_none h (Some sn)
                        \<and> info_episode_number info = int_or_none h (Some en)))
         \<and> ((\<forall>device_type\<in>set device_types.
                pre_title_match h (download_video_json b video_id device_type hostname) = None)
              \<longrightarrow> info_episode_number info = None \<and> info_season_number info = None
                  \<and> info_episode info = JNull \<and> info_series info = JNull)"
proof -
  let ?desktop = "download_video_json b video_id ''desktop'' hostname"
  let ?mobile = "download_video_json b video_id ''mobile'' hostname"
  let ?dm = "if has_meta ?mobile then pre_title_match h ?mobile
             else if has_meta ?desktop then pre_title_match h ?desktop else None"
  from extract_video_InrD [OF assms(2)] assms(1)
  obtain fs subs where info: "info = assemble h video_id m fs subs"
    by auto
  from merged_episode_numbers [OF assms(1) refl refl]
  have sn: "season_number m = map_option fst ?dm"
    and en: "episode_number m = map_option snd ?dm"
    by blast+
  show ?thesis
  proof (cases ?dm)
    case None
    then have "season_number m = None" "episode_number m = None"
      using sn en by simp_all
    then have absent: "info_episode_number info = None \<and> info_season_number info = None
                       \<and> info_episode info = JNull \<and> info_series info = JNull"
      by (simp add: info assemble_def int_or_none_def truthy_str_def)
    then show ?thesis by simp
  next
    case (Some p)
    obtain s e where p: "p = (s, e)" by (cases p)
    have src: "pre_title_match h ?mobile = Some (s, e) \<or> pre_title_match h ?desktop = Some (s, e)"
      using Some p by (auto split: if_splits)
    then have digits: "s \<noteq> [] \<and> list_all (is_digit h) s \<and> e \<noteq> [] \<and> list_all (is_digit h) e"
      using pre_title_match_digits by blast
    have vals: "season_number m = Some s" "episode_number m = Some e"
      using sn en Some p by simp_all
    have nums: "info_season_number info = int_or_none h (Some s)"
      "info_episode_number info = int_or_none h (Some e)"
      "info_episode info = subtitle m" "info_series info = title m"
      using vals digits by (simp_all add: info assemble_def truthy_str_def)
    have some: "info_season_number info \<noteq> None" "info_episode_number info \<noteq> None"
      using nums digits int_or_none_digits by simp_all
    have ex: "\<exists>device_type\<in>set device_types. \<exists>sn en.
                pre_title_match h (download_video_json b video_id device_type hostname)
                  = Some (sn, en)
                \<and> info_season_number info = int_or_none h (Some sn)
                \<and> info_episode_number info = int_or_none h (Some en)"
      using src nums by (auto simp: device_types_def)
    have not_all: "\<not> (\<forall>device_type\<in>set device_types.
                pre_title_match h (download_video_json b video_id device_type hostname) = None)"
      using src by (auto simp: device_types_def)
    from nums some ex not_all show ?thesis
      by blast
  qed
qed

lemma episode_attribution_example:
  "(case fst (extract_video sample_helpers (sample_backend episode_payload (JBool False))
               ''vid'' None JNull) of
      Inl e \<Rightarrow> False
    | Inr info \<Rightarrow>
        info_season_number info = Some 1
        \<and> info_episode_number info = Some 3
        \<and> info_episode info = JStr ''Duel au vieux port''
        \<and> info_series info = JStr ''Foot2Rue'')
   \<and> pre_title_match sample_helpers episode_payload = Some ([49], [51])"
proof -
  let ?h = sample_helpers and ?b = "sample_backend episode_payload (JBool False)"
  let ?m = "fetched_init \<lparr> title := JStr ''Foot2Rue'',
              subtitle := JStr ''Duel au vieux port'',
              episode_number := Some [51], season_number := Some [49] \<rparr>"
  let ?info = "assemble ?h ''vid'' ?m [] []"
  have 1: "fst (fetch_metadata ?h ?b ''vid'' JNull) = Inr ?m"
    by (simp add: model_defs episode_payload_def)
  have 2: "fst (extract_video ?h ?b ''vid'' None JNull) = Inr ?info"
    by (simp add: model_defs episode_payload_def)
  have 3: "info_episode_number ?info \<noteq> None"
    by (simp add: model_defs)
  have "info_episode ?info = subtitle ?m \<and> info_series ?info = title ?m"
    using episode_attribution [OF 1 2] 3 by blast
  then show ?thesis
    by (simp add: 2) (simp add: model_defs pre_title_match_def episode_payload_def)
qed

text \<open>
  The response that decides is the last one with a \<^verbatim>\<open>meta\<close> object: when its
  pre-title matches, the four fields are populated from that match.
\<close>

lemma episode_attribution_deciding:
  assumes "fst (fetch_metadata h b video_id hostname) = Inr m"
    and "fst (extract_video h b video_id catalogue hostname) = Inr info"
    and "desktop = download_video_json b video_id ''desktop'' hostname"
    and "mobile = download_video_json b video_id ''mobile'' hostname"
    and "(if has_meta mobile then pre_title_match h mobile
          else if has_meta desktop then pre_title_match h desktop else None) = Some (sn, en)"
  shows "info_season_number info = int_or_none h (Some sn)
         \<and> info_episode_number info = int_or_none h (Some en)
         \<and> info_season_number info \<noteq> None \<and> info_episode_number info \<noteq> None
         \<and> info_episode info = subtitle m \<and> info_series info = title m"
proof -
  from extract_video_InrD [OF assms(2)] assms(1)
  obtain fs subs where info: "info = assemble h video_id m fs subs"
    by auto
  from merged_episode_numbers [OF assms(1,3,4)] assms(5)
  have vals: "season_number m = Some sn" "episode_number m = Some en"
    by simp_all
  have "pre_title_match h mobile = Some (sn, en) \<or> pre_title_match h desktop = Some (sn, en)"
    using assms(5) by (auto split: if_splits)
  then have digits: "sn \<noteq> [] \<and> list_all (is_digit h) sn \<and> en \<noteq> [] \<and> list_all (is_digit h) en"
    using pre_title_match_digits by blast
  have nums: "info_season_number info = int_or_none h (Some sn)"
    "info_episode_number info = int_or_none h (Some en)"
    "info_episode info = subtitle m" "info_series info = title m"
    using vals digits by (simp_all add: info assemble_def truthy_str_def)
  with digits int_or_none_digits show ?thesis
    by simp
qed

text \<open>
  Claim C4 at a concrete input. The pre-title \<^verbatim>\<open>S1 E3\<close> matches the pattern, and with
  the desktop response alone the manifest has season 1, episode 3, the subtitle as
  episode and the title as series. With a mobile response that has a \<^verbatim>\<open>meta\<close>
  object without pre-title, line 131 assigns the two numbers again, and the manifest has
  none of the four fields although the episode number was parsed. For comparison, a lone
  response whose pre-title has a no-break space gives the same two numbers, and a lone
  response whose pre-title has no marker gives none of the four fields.
\<close>

theorem episode_fields_lost:
  "episode_parse sample_helpers (utf8_decode ''S1 E3'') [] [49] [32] [51] []
   \<and> pre_title_match sample_helpers episode_payload = Some ([49], [51])
   \<and> (case fst (extract_video sample_helpers (sample_backend episode_payload (JBool False))
                   ''vid'' None JNull) of
         Inl e \<Rightarrow> False
       | Inr info \<Rightarrow>
           info_season_number info = Some 1 \<and> info_episode_number info = Some 3
           \<and> info_episode info = JStr ''Duel au vieux port''
           \<and> info_series info = JStr ''Foot2Rue'')
   \<and> (case fst (extract_video sample_helpers (sample_backend episode_payload plain_payload)
                   ''vid'' None JNull) of
         Inl e \<Rightarrow> False
       | Inr info \<Rightarrow>
           info_season_number info = None \<and> info_episode_number info = None
           \<and> info_episode info = JNull \<and> info_series info = JNull)
   \<and> (case fst (extract_video sample_helpers (sample_backend nbsp_payload (JBool False))
                   ''vid'' None JNull) of
         Inl e \<Rightarrow> False
       | Inr info \<Rightarrow>
           info_season_number info = Some 1 \<and> info_episode_number info = Some 3)
   \<and> (case fst (extract_video sample_helpers (sample_backend bonus_payload (JBool False))
                   ''vid'' None JNull) of
         Inl e \<Rightarrow> False
       | Inr info \<Rightarrow>
           info_season_number info = None \<and> info_episode_number info = None
           \<and> info_episode info = JNull \<and> info_series info = JNull)"
  by (simp add: model_defs episode_parse_def pre_title_match_def episode_payload_def
        plain_payload_def nbsp_payload_def bonus_payload_def)

section \<open>URL classification\<close>

lemma strip_prefix_append [simp]: "strip_prefix p (p @ s) = Some s"
  by (simp add: strip_prefix_def)

lemma player_prefix_internal: "player_prefix (''francetv:'' @ rest) = Some rest"
  by (simp add: player_prefix_def strip_http_def strip_prefix_def)

lemma player_prefix_http:
  "player_prefix (''http://videos.francetv.fr/video/'' @ rest) = Some rest"
  by (simp add: player_prefix_def strip_http_def strip_prefix_def)

lemma player_prefix_https:
  "player_prefix (''https://videos.francetv.fr/video/'' @ rest) = Some rest"
  by (simp add: player_prefix_def strip_http_def strip_prefix_def)

lemma api_ping_internal: "\<not> api_ping_match (''francetv:'' @ rest)"
  by (simp add: api_ping_match_def strip_http_def strip_prefix_def)

lemma api_ping_http: "\<not> api_ping_match (''http://videos.francetv.fr/video/'' @ rest)"
  by (simp add: api_ping_match_def strip_http_def strip_prefix_def)

lemma api_ping_https: "\<not> api_ping_match (''https://videos.francetv.fr/video/'' @ rest)"
  by (simp add: api_ping_match_def strip_http_def strip_prefix_def)


lemma takeWhile_not_at: "CHR ''@'' \<notin> set v \<Longrightarrow> takeWhile (\<lambda>c. c \<noteq> CHR ''@'') (v @ CHR ''@'' # r) = v"
  by (induction v) auto

lemma dropWhile_not_at: "CHR ''@'' \<notin> set v \<Longrightarrow> dropWhile (\<lambda>c. c \<noteq> CHR ''@'') (v @ CHR ''@'' # r) = CHR ''@'' # r"
  by (induction v) auto

lemma takeWhile_all: "x \<notin> set v \<Longrightarrow> takeWhile (\<lambda>c. c \<noteq> x) v = v"
  by (induction v) auto

lemma dropWhile_all: "x \<notin> set v \<Longrightarrow> dropWhile (\<lambda>c. c \<noteq> x) v = []"
  by (induction v) auto

lemma player_prefix_shapes:
  assumes "prefix \<in> set player_prefixes"
  shows "player_prefix (prefix @ rest) = Some rest" and "\<not> api_ping_match (prefix @ rest)"
  using assms player_prefix_internal player_prefix_http player_prefix_https
    api_ping_internal api_ping_http api_ping_https
  by (auto simp: player_prefixes_def simp del: append.simps)

lemma match_valid_url_plain:
  assumes "prefix \<in> set player_prefixes" and "video_id \<noteq> []"
    and "CHR ''@'' \<notin> set video_id"
  shows "match_valid_url (prefix @ video_id) = Some (Some video_id, None)"
  using assms
  by (simp add: match_valid_url_def player_prefix_shapes takeWhile_all dropWhile_all)

lemma match_valid_url_catalog:
  assumes "prefix \<in> set player_prefixes" and "video_id \<noteq> []"
    and "CHR ''@'' \<notin> set video_id" and "catalog \<noteq> []" and "CHR 0x0A \<notin> set catalog"
  shows "match_valid_url (prefix @ video_id @ ''@'' @ catalog)
           = Some (Some video_id, Some catalog)"
  using assms
  by (simp add: match_valid_url_def player_prefix_shapes takeWhile_not_at dropWhile_not_at
      takeWhile_all)

lemma find_idDiffusion_here:
  "c \<noteq> CHR ''&'' \<Longrightarrow> find_idDiffusion False (''idDiffusion='' @ c # rest)"
  by (simp add: strip_prefix_def)

lemma find_idDiffusion_skip:
  assumes "CHR 0x0A \<notin> set pre" and "c \<noteq> CHR ''&''"
    and "pre = [] \<longrightarrow> \<not> prev_word" and "pre \<noteq> [] \<longrightarrow> \<not> is_word (last pre)"
  shows "find_idDiffusion prev_word (pre @ ''idDiffusion='' @ c # rest)"
  using assms
proof (induction pre arbitrary: prev_word)
  case Nil
  then show ?case using find_idDiffusion_here [of c rest] by simp
next
  case (Cons x xs)
  have "find_idDiffusion (is_word x) (xs @ ''idDiffusion='' @ c # rest)"
    using Cons.prems by (intro Cons.IH) (auto split: if_splits)
  with Cons.prems(1) show ?case by auto
qed

lemma api_ping_shapes:
  assumes "prefix \<in> set api_ping_prefixes" and "CHR 0x0A \<notin> set pre" and "c \<noteq> CHR ''&''"
    and "pre = [] \<or> \<not> is_word (last pre)"
  shows "api_ping_match (prefix @ pre @ ''idDiffusion='' @ c # rest)"
proof -
  have f: "find_idDiffusion False (pre @ ''idDiffusion='' @ c # rest)"
    using assms(2,3,4) by (intro find_idDiffusion_skip) auto
  have "api_ping_match (prefix @ q) = find_idDiffusion False q" for q
    using assms(1)
    by (auto simp: api_ping_prefixes_def api_ping_match_def strip_http_def strip_prefix_def)
  with f show ?thesis by simp
qed


lemma classify_url_player:
  assumes "unsmuggle_url h smuggled = (url, smuggled_data)"
    and "match_valid_url url = Some (Some video_id, catalog)" and "video_id \<noteq> []"
  shows "classify_url h smuggled = Inr (video_id, catalog, dict_get smuggled_data ''hostname'')"
  using assms by (simp add: classify_url_def)

lemma classify_url_api:
  assumes "unsmuggle_url h smuggled = (url, smuggled_data)" and "api_ping_match url"
  shows "classify_url h smuggled = query_fallback h url (dict_get smuggled_data ''hostname'')"
  using assms by (simp add: classify_url_def match_valid_url_def)

lemma query_fallback_found:
  assumes "parse_qs h url ''idDiffusion'' = v # vs" and "v \<noteq> []"
  shows "query_fallback h url hostname
           = Inr (v, (case parse_qs h url ''catalogue'' of [] \<Rightarrow> None | c # cs \<Rightarrow> Some c),
                  hostname)"
  using assms by (simp add: query_fallback_def qs_first_def)

lemma query_fallback_missing:
  assumes "parse_qs h url ''idDiffusion'' = []"
  shows "query_fallback h url hostname = Inl InvalidURL"
  using assms by (simp add: query_fallback_def qs_first_def)

text \<open>
  Claim C6. Let \<open>url\<close> be the URL after the smuggled data is taken off. For an
  internal reference or a legacy URL, that is one of the three prefixes followed by an
  identifier without \<^verbatim>\<open>@\<close>, the classifier gives that identifier and no catalog;
  followed by \<^verbatim>\<open>@\<close> and a catalog, it gives the identifier and the catalog. For an
  API-ping URL whose query holds \<^verbatim>\<open>idDiffusion=\<close> at a word boundary with a value,
  the pattern has no identifier and the classifier falls back on the parsed query
  string: it gives the first value of \<^verbatim>\<open>idDiffusion\<close> and the first value of
  \<^verbatim>\<open>catalogue\<close> if there is one, and fails with \<open>InvalidURL\<close> when the parsed
  query has no \<^verbatim>\<open>idDiffusion\<close>.
\<close>

theorem classify_url_shapes:
  assumes "unsmuggle_url h smuggled = (url, smuggled_data)"
  shows "(\<forall>prefix\<in>set player_prefixes. \<forall>video_id.
            video_id \<noteq> [] \<and> CHR ''@'' \<notin> set video_id
            \<longrightarrow> (url = prefix @ video_id
                   \<longrightarrow> classify_url h smuggled
                         = Inr (video_id, None, dict_get smuggled_data ''hostname''))
                \<and> (\<forall>catalog.
                      catalog \<noteq> [] \<and> CHR 0x0A \<notin> set catalog
                      \<and> url = prefix @ video_id @ ''@'' @ catalog
                      \<longrightarrow> classify_url h smuggled
                            = Inr (video_id, Some catalog, dict_get smuggled_data ''hostname'')))
         \<and> (\<forall>prefix\<in>set api_ping_prefixes. \<forall>pre c rest.
               url = prefix @ pre @ ''idDiffusion='' @ c # rest
               \<and> c \<noteq> CHR ''&'' \<and> CHR 0x0A \<notin> set pre
               \<and> (pre = [] \<or> \<not> is_word (last pre))
               \<longrightarrow> classify_url h smuggled
                     = query_fallback h url (dict_get smuggled_data ''hostname'')
                   \<and> (\<forall>v vs. parse_qs h url ''idDiffusion'' = v # vs \<and> v \<noteq> []
                         \<longrightarrow> classify_url h smuggled
                               = Inr (v, (case parse_qs h url ''catalogue'' of
                                            [] \<Rightarrow> None
                                          | c # cs \<Rightarrow> Some c),
                                      dict_get smuggled_data ''hostname''))
                   \<and> (parse_qs h url ''idDiffusion'' = []
                         \<longrightarrow> classify_url h smuggled = Inl InvalidURL))"
proof (intro conjI ballI allI impI)
  fix prefix video_id
  assume p: "prefix \<in> set player_prefixes"
    and v: "video_id \<noteq> [] \<and> CHR ''@'' \<notin> set video_id"
    and u: "url = prefix @ video_id"
  show "classify_url h smuggled = Inr (video_id, None, dict_get smuggled_data ''hostname'')"
    using classify_url_player [OF assms, of video_id None] match_valid_url_plain [OF p] v u
    by simp
next
  fix prefix video_id catalog
  assume p: "prefix \<in> set player_prefixes"
    and v: "video_id \<noteq> [] \<and> CHR ''@'' \<notin> set video_id"
    and c: "catalog \<noteq> [] \<and> CHR 0x0A \<notin> set catalog
            \<and> url = prefix @ video_id @ ''@'' @ catalog"
  show "classify_url h smuggled
          = Inr (video_id, Some catalog, dict_get smuggled_data ''hostname'')"
    using classify_url_player [OF assms, of video_id "Some catalog"]
      match_valid_url_catalog [OF p, of video_id catalog] v c
    by simp
next
  fix prefix pre c rest
  assume p: "prefix \<in> set api_ping_prefixes"
    and u: "url = prefix @ pre @ ''idDiffusion='' @ c # rest
            \<and> c \<noteq> CHR ''&'' \<and> CHR 0x0A \<notin> set pre
            \<and> (pre = [] \<or> \<not> is_word (last pre))"
  have m: "api_ping_match url"
    using api_ping_shapes [OF p, of pre c rest] u by simp
  show fb: "classify_url h smuggled
              = query_fallback h url (dict_get smuggled_data ''hostname'')"
    using classify_url_api [OF assms m] .
  {
    fix v vs
    assume "parse_qs h url ''idDiffusion'' = v # vs \<and> v \<noteq> []"
    then show "classify_url h smuggled
                 = Inr (v, (case parse_qs h url ''catalogue'' of
                              [] \<Rightarrow> None
                            | c # cs \<Rightarrow> Some c),
                        dict_get smuggled_data ''hostname'')"
      using query_fallback_found [of h url v vs] by (simp add: fb)
  }
  {
    assume "parse_qs h url ''idDiffusion'' = []"
    then show "classify_url h smuggled = Inl InvalidURL"
      using query_fallback_missing [of h url] by (simp add: fb)
  }
qed


theorem classify_url_shapes_witness:
  "classify_url sample_helpers ''francetv:NI_1004933@Zouzous''
     = Inr (''NI_1004933'', Some ''Zouzous'', JNull)
   \<and> classify_url sample_helpers ''francetv:162311093'' = Inr (''162311093'', None, JNull)
   \<and> classify_url sample_helpers ''http://videos.francetv.fr/video/NI_657393@Regions''
       = Inr (''NI_657393'', Some ''Regions'', JNull)
   \<and> classify_url sample_helpers
        ''https://sivideo.webservices.francetelevisions.fr/tools/getInfosOeuvre/v2/?idDiffusion=NI_1004933&catalogue=Zouzous''
       = Inr (''NI_1004933'', Some ''Zouzous'', JNull)
   \<and> classify_url sample_helpers
        ''https://sivideo.webservices.francetelevisions.fr/tools/getInfosOeuvre/v2/?a=b-idDiffusion=3''
       = Inl InvalidURL"
proof -
  have un: "unsmuggle_url sample_helpers u = (u, [])" for u
    by (simp add: sample_helpers_def)
  note shapes = classify_url_shapes [OF un]
  have a: "classify_url sample_helpers ''francetv:NI_1004933@Zouzous''
             = Inr (''NI_1004933'', Some ''Zouzous'', JNull)"
    using shapes [of "''francetv:NI_1004933@Zouzous''"]
    apply -
    apply (drule conjunct1)
    apply (drule bspec [where x = "''francetv:''"])
     apply (simp add: player_prefixes_def)
    apply (drule spec [where x = "''NI_1004933''"])
    apply (drule mp)
     apply simp
    apply (drule conjunct2)
    apply (drule spec [where x = "''Zouzous''"])
    apply (simp add: dict_get_def)
    done
  have b: "classify_url sample_helpers ''francetv:162311093'' = Inr (''162311093'', None, JNull)"
    using shapes [of "''francetv:162311093''"]
    apply -
    apply (drule conjunct1)
    apply (drule bspec [where x = "''francetv:''"])
     apply (simp add: player_prefixes_def)
    apply (drule spec [where x = "''162311093''"])
    apply (simp add: dict_get_def)
    done
  have c: "classify_url sample_helpers ''http://videos.francetv.fr/video/NI_657393@Regions''
             = Inr (''NI_657393'', Some ''Regions'', JNull)"
    using shapes [of "''http://videos.francetv.fr/video/NI_657393@Regions''"]
    apply -
    apply (drule conjunct1)
    apply (drule bspec [where x = "''http://videos.francetv.fr/video/''"])
     apply (simp add: player_prefixes_def)
    apply (drule spec [where x = "''NI_657393''"])
    apply (drule mp)
     apply simp
    apply (drule conjunct2)
    apply (drule spec [where x = "''Regions''"])
    apply (simp add: dict_get_def)
    done
  have d: "classify_url sample_helpers
        ''https://sivideo.webservices.francetelevisions.fr/tools/getInfosOeuvre/v2/?idDiffusion=NI_1004933&catalogue=Zouzous''
       = Inr (''NI_1004933'', Some ''Zouzous'', JNull)"
    using shapes [of "''https://sivideo.webservices.francetelevisions.fr/tools/getInfosOeuvre/v2/?idDiffusion=NI_1004933&catalogue=Zouzous''"]
    apply -
    apply (drule conjunct2)
    apply (drule bspec [where x = "''https://sivideo.webservices.francetelevisions.fr/tools/getInfosOeuvre/v2/?''"])
     apply (simp add: api_ping_prefixes_def)
    apply (drule spec [where x = "[]"])
    apply (drule spec [where x = "CHR ''N''"])
    apply (drule spec [where x = "''I_1004933&catalogue=Zouzous''"])
    apply (drule mp)
     apply simp
    apply (drule conjunct2)
    apply (drule conjunct1)
    apply (drule spec [where x = "''NI_1004933''"])
    apply (drule spec [where x = "[]"])
    apply (simp add: dict_get_def sample_helpers_def sample_qs_def)
    done
  have e: "classify_url sample_helpers
        ''https://sivideo.webservices.francetelevisions.fr/tools/getInfosOeuvre/v2/?a=b-idDiffusion=3''
       = Inl InvalidURL"
    using shapes [of "''https://sivideo.webservices.francetelevisions.fr/tools/getInfosOeuvre/v2/?a=b-idDiffusion=3''"]
    apply -
    apply (drule conjunct2)
    apply (drule bspec [where x = "''https://sivideo.webservices.francetelevisions.fr/tools/getInfosOeuvre/v2/?''"])
     apply (simp add: api_ping_prefixes_def)
    apply (drule spec [where x = "''a=b-''"])
    apply (drule spec [where x = "CHR ''3''"])
    apply (drule spec [where x = "[]"])
    apply (drule mp)
     apply (simp add: is_word_def)
    apply (drule conjunct2)
    apply (drule conjunct2)
    apply (simp add: sample_helpers_def sample_qs_def)
    done
  from a b c d e show ?thesis by blast
qed

end
